theory Spec2Isabelle
  imports Main "HOL-Library.Word" "HOL-Library.Sublist"
begin

unbundle bit_operations_syntax

section \<open>HTTP responses\<close>

text \<open>
  The handlers of \<^verbatim>\<open>src/routes/authentication.ts\<close> answer through three calls of the
  framework: \<^verbatim>\<open>c.body(null, 401, {"WWW-Authenticate": v})\<close>, \<^verbatim>\<open>c.body(text, 400)\<close> and
  \<^verbatim>\<open>c.json({authenticated: true, ...})\<close>. A response is the status, the headers the
  handler passes itself, and the body. Strings are lists of 8-bit characters: a JavaScript
  string is modelled when all its code units are below 256.
\<close>

datatype json = JBool bool | JString string

datatype body = Null | Text string | Json "(string \<times> json) list"

record response =
  status :: nat
  headers :: "(string \<times> string) list"
  body :: body

definition c_body :: "body \<Rightarrow> nat \<Rightarrow> (string \<times> string) list \<Rightarrow> response" where
  "c_body b st hs = \<lparr>status = st, headers = hs, body = b\<rparr>"

definition c_json :: "(string \<times> json) list \<Rightarrow> response" where
  "c_json obj = \<lparr>status = 200, headers = [], body = Json obj\<rparr>"

text \<open>
  An exception that leaves a handler is a value: \<^verbatim>\<open>atob\<close> throws a
  \<^verbatim>\<open>DOMException\<close> named InvalidCharacterError, and no handler has a \<^verbatim>\<open>try\<close>.
\<close>

datatype fault = InvalidCharacterError

text \<open>\<^verbatim>\<open>authHeader.startsWith(p)\<close> and \<^verbatim>\<open>authHeader.substring(n)\<close>.\<close>

definition startsWith :: "string \<Rightarrow> string \<Rightarrow> bool" where
  "startsWith s p = (take (length p) s = p)"

definition substring :: "string \<Rightarrow> nat \<Rightarrow> string" where
  "substring s n = drop n s"

section \<open>Bearer\<close>

text \<open>
  \<^verbatim>\<open>authentication.get("/bearer", ...)\<close>. The argument is the value of
  \<^verbatim>\<open>c.req.header("authorization")\<close>: \<open>None\<close> is \<^verbatim>\<open>undefined\<close>, and
  \<^verbatim>\<open>!authHeader\<close> holds for \<^verbatim>\<open>undefined\<close> and for the empty string.
\<close>

definition bearer :: "string option \<Rightarrow> response" where
  "bearer authHeader =
     (case authHeader of
        None \<Rightarrow> c_body Null 401 [(''WWW-Authenticate'', ''Bearer'')]
      | Some h \<Rightarrow>
          if h = [] \<or> \<not> startsWith h ''Bearer ''
          then c_body Null 401 [(''WWW-Authenticate'', ''Bearer'')]
          else c_json [(''authenticated'', JBool True), (''token'', JString (substring h 7))])"

text \<open>
  \<^verbatim>\<open>c.req.header(name)\<close> is \<^verbatim>\<open>headers.get(name)\<close> on the \<^verbatim>\<open>Headers\<close> object of the
  request, and \<^verbatim>\<open>undefined\<close> when the header is absent. A \<^verbatim>\<open>Headers\<close> object stores a
  value normalised: the leading and the trailing HTTP whitespace bytes (tab, line feed,
  carriage return, space) are removed. So the handler reads the value that was sent without
  the white space around it. (A value with a line feed, a carriage return or a zero byte
  inside is refused when the request is built, and is not modelled.)
\<close>

definition is_http_whitespace :: "char \<Rightarrow> bool" where
  "is_http_whitespace c = (c = CHR 0x09 \<or> c = CHR 0x0A \<or> c = CHR 0x0D \<or> c = CHR '' '')"

definition normalize_value :: "string \<Rightarrow> string" where
  "normalize_value s = rev (dropWhile is_http_whitespace (rev (dropWhile is_http_whitespace s)))"

definition req_header :: "string option \<Rightarrow> string option" where
  "req_header sent = map_option normalize_value sent"

text \<open>The route \<open>/bearer\<close> on a request whose Authorization header was sent as \<open>sent\<close>.\<close>

definition bearer_route :: "string option \<Rightarrow> response" where
  "bearer_route sent = bearer (req_header sent)"

section \<open>Base64: \<^verbatim>\<open>btoa\<close> and \<^verbatim>\<open>atob\<close>\<close>

text \<open>
  \<^verbatim>\<open>btoa\<close> and \<^verbatim>\<open>atob\<close> are functions of the platform, modelled after the HTML
  standard: \<^verbatim>\<open>btoa\<close> is RFC 4648 base64 with padding over the code units of its
  argument, \<^verbatim>\<open>atob\<close> is the standard's forgiving-base64 decode, whose failure is the
  exception InvalidCharacterError (here \<open>None\<close>).
\<close>

definition b64chars :: string where
  "b64chars = ''ABCDEFGHIJKLMNOPQRSTUVWXYZabcdefghijklmnopqrstuvwxyz0123456789+/''"

definition b64char :: "nat \<Rightarrow> char" where
  "b64char n = b64chars ! n"

fun index_of :: "'a \<Rightarrow> 'a list \<Rightarrow> nat option" where
  "index_of x [] = None"
| "index_of x (y # ys) = (if x = y then Some 0 else map_option Suc (index_of x ys))"

definition b64index :: "char \<Rightarrow> nat option" where
  "b64index c = index_of c b64chars"

fun btoa_bytes :: "nat list \<Rightarrow> string" where
  "btoa_bytes [] = []"
| "btoa_bytes [a] = [b64char (a div 4), b64char (a mod 4 * 16), CHR ''='', CHR ''='']"
| "btoa_bytes [a, b] =
     [b64char (a div 4), b64char (a mod 4 * 16 + b div 16), b64char (b mod 16 * 4), CHR ''='']"
| "btoa_bytes (a # b # c # r) =
     [b64char (a div 4), b64char (a mod 4 * 16 + b div 16),
      b64char (b mod 16 * 4 + c div 64), b64char (c mod 64)] @ btoa_bytes r"

definition btoa :: "string \<Rightarrow> string" where
  "btoa s = btoa_bytes (map of_char s)"

definition is_ascii_whitespace :: "char \<Rightarrow> bool" where
  "is_ascii_whitespace c = (of_char c \<in> {9, 10, 12, 13, 32 :: nat})"

text \<open>
  Step 2 of forgiving-base64 decode: when the length is a multiple of four, one or two
  trailing \<open>=\<close> are removed.
\<close>

definition strip_padding :: "string \<Rightarrow> string" where
  "strip_padding d =
     (if length d mod 4 = 0
      then (case rev d of
              c1 # c2 # r \<Rightarrow>
                if c1 = CHR ''='' \<and> c2 = CHR ''='' then rev r
                else if c1 = CHR ''='' then rev (c2 # r) else d
            | _ \<Rightarrow> d)
      else d)"

text \<open>
  The 6-bit groups are joined into bytes; 12 left-over bits give one byte and 18 give
  two, the low bits discarded. A single left-over group is excluded by the length test.
\<close>

fun atob_sextets :: "nat list \<Rightarrow> nat list" where
  "atob_sextets (s1 # s2 # s3 # s4 # r) =
     [s1 * 4 + s2 div 16, s2 mod 16 * 16 + s3 div 4, s3 mod 4 * 64 + s4] @ atob_sextets r"
| "atob_sextets [s1, s2, s3] = [s1 * 4 + s2 div 16, s2 mod 16 * 16 + s3 div 4]"
| "atob_sextets [s1, s2] = [s1 * 4 + s2 div 16]"
| "atob_sextets _ = []"

definition atob :: "string \<Rightarrow> string option" where
  "atob data =
     (let d = strip_padding (filter (\<lambda>c. \<not> is_ascii_whitespace c) data)
      in if length d mod 4 = 1 then None
         else map_option (\<lambda>ss. map char_of (atob_sextets ss)) (those (map b64index d)))"

section \<open>Basic\<close>

text \<open>\<^verbatim>\<open>credentials.split(":")\<close>: every separator splits, and the result is never empty.\<close>

fun split :: "char \<Rightarrow> string \<Rightarrow> string list" where
  "split sep [] = [[]]"
| "split sep (c # cs) =
     (if c = sep then [] # split sep cs
      else (case split sep cs of x # xs \<Rightarrow> (c # x) # xs | [] \<Rightarrow> [[c]]))"

text \<open>Reading an array by index: \<open>None\<close> is \<^verbatim>\<open>undefined\<close>.\<close>

definition at_index :: "'a list \<Rightarrow> nat \<Rightarrow> 'a option" where
  "at_index xs i = (if i < length xs then Some (xs ! i) else None)"

definition basic_challenge :: response where
  "basic_challenge = c_body Null 401 [(''WWW-Authenticate'', ''Basic realm=\"Fake Realm\"'')]"

text \<open>
  \<^verbatim>\<open>authentication.get("/basic-auth/:user/:passwd", ...)\<close>. The destructuring
  \<^verbatim>\<open>const [providedUser, providedPasswd] = credentials.split(":")\<close> reads the first two
  fields and drops the others.
\<close>

definition basic_auth :: "string \<Rightarrow> string \<Rightarrow> string option \<Rightarrow> fault + response" where
  "basic_auth user passwd authHeader =
     (case authHeader of
        None \<Rightarrow> Inr basic_challenge
      | Some h \<Rightarrow>
          if h = [] \<or> \<not> startsWith h ''Basic '' then Inr basic_challenge
          else (case atob (substring h 6) of
                  None \<Rightarrow> Inl InvalidCharacterError
                | Some credentials \<Rightarrow>
                    (let parts = split CHR '':'' credentials;
                         providedUser = at_index parts 0;
                         providedPasswd = at_index parts 1
                     in if providedUser \<noteq> Some user \<or> providedPasswd \<noteq> Some passwd
                        then Inr basic_challenge
                        else Inr (c_json [(''authenticated'', JBool True),
                                          (''user'', JString user)]))))"

section \<open>The digest functions of the platform\<close>

text \<open>
  \<^verbatim>\<open>crypto.subtle.digest("SHA-256", ...)\<close> and \<^verbatim>\<open>crypto.subtle.digest("SHA-512", ...)\<close>
  are functions of the platform, modelled after FIPS 180-4. Bytes are natural numbers
  below 256, the working variables are 32-bit and 64-bit words. The round constants are
  the leading fractional bits of the cube roots of the first primes, the initial hash
  values those of the square roots, written in decimal.
\<close>

type_synonym byte = nat

definition be32 :: "nat \<Rightarrow> byte list" where
  "be32 x = [x div 16777216 mod 256, x div 65536 mod 256, x div 256 mod 256, x mod 256]"

definition be64 :: "nat \<Rightarrow> byte list" where
  "be64 x = be32 (x div 4294967296) @ be32 (x mod 4294967296)"

definition be128 :: "nat \<Rightarrow> byte list" where
  "be128 x = be64 (x div 18446744073709551616) @ be64 (x mod 18446744073709551616)"

text \<open>
  Padding to a multiple of the block size \<open>B\<close>: the byte 0x80, zero bytes, and the bit
  length of the message in the last bytes.
\<close>

definition sha_pad :: "nat \<Rightarrow> byte list \<Rightarrow> byte list \<Rightarrow> byte list" where
  "sha_pad B len_field m =
     m @ [128] @ replicate ((B - (length m + 1 + length len_field) mod B) mod B) 0 @ len_field"

fun chunks :: "nat \<Rightarrow> 'a list \<Rightarrow> 'a list list" where
  "chunks n [] = []"
| "chunks n (x # xs) =
     (if n = 0 then [] else take n (x # xs) # chunks n (drop n (x # xs)))"

definition be_word :: "byte list \<Rightarrow> 'a::len word" where
  "be_word bs = of_nat (foldl (\<lambda>acc b. acc * 256 + b) 0 bs)"

definition rotr :: "nat \<Rightarrow> 'a::len word \<Rightarrow> 'a word" where
  "rotr n w = drop_bit n w OR push_bit (LENGTH('a) - n) w"

definition Ch :: "'a::len word \<Rightarrow> 'a word \<Rightarrow> 'a word \<Rightarrow> 'a word" where
  "Ch x y z = (x AND y) XOR (NOT x AND z)"

definition Maj :: "'a::len word \<Rightarrow> 'a word \<Rightarrow> 'a word \<Rightarrow> 'a word" where
  "Maj x y z = (x AND y) XOR (x AND z) XOR (y AND z)"

subsection \<open>SHA-256\<close>

definition K256 :: "32 word list" where
  "K256 =
     [1116352408, 1899447441, 3049323471, 3921009573, 961987163, 1508970993,
      2453635748, 2870763221, 3624381080, 310598401, 607225278, 1426881987,
      1925078388, 2162078206, 2614888103, 3248222580, 3835390401, 4022224774,
      264347078, 604807628, 770255983, 1249150122, 1555081692, 1996064986,
      2554220882, 2821834349, 2952996808, 3210313671, 3336571891, 3584528711,
      113926993, 338241895, 666307205, 773529912, 1294757372, 1396182291,
      1695183700, 1986661051, 2177026350, 2456956037, 2730485921, 2820302411,
      3259730800, 3345764771, 3516065817, 3600352804, 4094571909, 275423344,
      430227734, 506948616, 659060556, 883997877, 958139571, 1322822218,
      1537002063, 1747873779, 1955562222, 2024104815, 2227730452, 2361852424,
      2428436474, 2756734187, 3204031479, 3329325298]"

definition H256 :: "32 word list" where
  "H256 = [1779033703, 3144134277, 1013904242, 2773480762,
           1359893119, 2600822924, 528734635, 1541459225]"

definition bsig0_256 :: "32 word \<Rightarrow> 32 word" where
  "bsig0_256 x = rotr 2 x XOR rotr 13 x XOR rotr 22 x"

definition bsig1_256 :: "32 word \<Rightarrow> 32 word" where
  "bsig1_256 x = rotr 6 x XOR rotr 11 x XOR rotr 25 x"

definition ssig0_256 :: "32 word \<Rightarrow> 32 word" where
  "ssig0_256 x = rotr 7 x XOR rotr 18 x XOR drop_bit 3 x"

definition ssig1_256 :: "32 word \<Rightarrow> 32 word" where
  "ssig1_256 x = rotr 17 x XOR rotr 19 x XOR drop_bit 10 x"

text \<open>One round on the working variables \<open>a\<close> to \<open>h\<close>.\<close>

definition step256 :: "32 word list \<Rightarrow> 32 word \<Rightarrow> 32 word \<Rightarrow> 32 word list" where
  "step256 s k w =
     (case s of
        [a, b, c, d, e, f, g, h] \<Rightarrow>
          (let t1 = h + bsig1_256 e + Ch e f g + k + w;
               t2 = bsig0_256 a + Maj a b c
           in [t1 + t2, a, b, c, d + t1, e, f, g])
      | _ \<Rightarrow> s)"

text \<open>
  The rounds, one for each constant. The second argument is the window of the last sixteen
  words of the message schedule: its head is the word of this round, and the next word is
  appended.
\<close>

fun rounds256 :: "32 word list \<Rightarrow> 32 word list \<Rightarrow> 32 word list \<Rightarrow> 32 word list" where
  "rounds256 s w [] = s"
| "rounds256 s w (k # ks) =
     rounds256 (step256 s k (w ! 0))
       (tl w @ [ssig1_256 (w ! 14) + w ! 9 + ssig0_256 (w ! 1) + w ! 0]) ks"

definition compress256 :: "32 word list \<Rightarrow> byte list \<Rightarrow> 32 word list" where
  "compress256 hs block = map2 (+) hs (rounds256 hs (map be_word (chunks 4 block)) K256)"

definition sha256 :: "byte list \<Rightarrow> byte list" where
  "sha256 m =
     concat (map (\<lambda>w. be32 (unat w))
       (foldl compress256 H256 (chunks 64 (sha_pad 64 (be64 (8 * length m)) m))))"

subsection \<open>SHA-512\<close>

definition K512 :: "64 word list" where
  "K512 =
     [4794697086780616226, 8158064640168781261, 13096744586834688815, 16840607885511220156,
      4131703408338449720, 6480981068601479193, 10538285296894168987, 12329834152419229976,
      15566598209576043074, 1334009975649890238, 2608012711638119052, 6128411473006802146,
      8268148722764581231, 9286055187155687089, 11230858885718282805, 13951009754708518548,
      16472876342353939154, 17275323862435702243, 1135362057144423861, 2597628984639134821,
      3308224258029322869, 5365058923640841347, 6679025012923562964, 8573033837759648693,
      10970295158949994411, 12119686244451234320, 12683024718118986047, 13788192230050041572,
      14330467153632333762, 15395433587784984357, 489312712824947311, 1452737877330783856,
      2861767655752347644, 3322285676063803686, 5560940570517711597, 5996557281743188959,
      7280758554555802590, 8532644243296465576, 9350256976987008742, 10552545826968843579,
      11727347734174303076, 12113106623233404929, 14000437183269869457, 14369950271660146224,
      15101387698204529176, 15463397548674623760, 17586052441742319658, 1182934255886127544,
      1847814050463011016, 2177327727835720531, 2830643537854262169, 3796741975233480872,
      4115178125766777443, 5681478168544905931, 6601373596472566643, 7507060721942968483,
      8399075790359081724, 8693463985226723168, 9568029438360202098, 10144078919501101548,
      10430055236837252648, 11840083180663258601, 13761210420658862357, 14299343276471374635,
      14566680578165727644, 15097957966210449927, 16922976911328602910, 17689382322260857208,
      500013540394364858, 748580250866718886, 1242879168328830382, 1977374033974150939,
      2944078676154940804, 3659926193048069267, 4368137639120453308, 4836135668995329356,
      5532061633213252278, 6448918945643986474, 6902733635092675308, 7801388544844847127]"

definition H512 :: "64 word list" where
  "H512 = [7640891576956012808, 13503953896175478587, 4354685564936845355, 11912009170470909681,
           5840696475078001361, 11170449401992604703, 2270897969802886507, 6620516959819538809]"

definition bsig0_512 :: "64 word \<Rightarrow> 64 word" where
  "bsig0_512 x = rotr 28 x XOR rotr 34 x XOR rotr 39 x"

definition bsig1_512 :: "64 word \<Rightarrow> 64 word" where
  "bsig1_512 x = rotr 14 x XOR rotr 18 x XOR rotr 41 x"

definition ssig0_512 :: "64 word \<Rightarrow> 64 word" where
  "ssig0_512 x = rotr 1 x XOR rotr 8 x XOR drop_bit 7 x"

definition ssig1_512 :: "64 word \<Rightarrow> 64 word" where
  "ssig1_512 x = rotr 19 x XOR rotr 61 x XOR drop_bit 6 x"

definition step512 :: "64 word list \<Rightarrow> 64 word \<Rightarrow> 64 word \<Rightarrow> 64 word list" where
  "step512 s k w =
     (case s of
        [a, b, c, d, e, f, g, h] \<Rightarrow>
          (let t1 = h + bsig1_512 e + Ch e f g + k + w;
               t2 = bsig0_512 a + Maj a b c
           in [t1 + t2, a, b, c, d + t1, e, f, g])
      | _ \<Rightarrow> s)"

fun rounds512 :: "64 word list \<Rightarrow> 64 word list \<Rightarrow> 64 word list \<Rightarrow> 64 word list" where
  "rounds512 s w [] = s"
| "rounds512 s w (k # ks) =
     rounds512 (step512 s k (w ! 0))
       (tl w @ [ssig1_512 (w ! 14) + w ! 9 + ssig0_512 (w ! 1) + w ! 0]) ks"

definition compress512 :: "64 word list \<Rightarrow> byte list \<Rightarrow> 64 word list" where
  "compress512 hs block = map2 (+) hs (rounds512 hs (map be_word (chunks 8 block)) K512)"

definition sha512 :: "byte list \<Rightarrow> byte list" where
  "sha512 m =
     concat (map (\<lambda>w. be64 (unat w))
       (foldl compress512 H512 (chunks 128 (sha_pad 128 (be128 (8 * length m)) m))))"

subsection \<open>Word numerals\<close>

text \<open>
  The identity on words. The lemmas that evaluate the digest functions on a given message
  use it to mark where a numeral is reduced modulo the word size.
\<close>

definition reduce32 :: "32 word \<Rightarrow> 32 word" where "reduce32 w = w"

definition reduce64 :: "64 word \<Rightarrow> 64 word" where "reduce64 w = w"

section \<open>Hashing strings\<close>

text \<open>
  \<^verbatim>\<open>new TextEncoder().encode(data)\<close>: UTF-8, one byte for a code unit below 128 and two
  for the others below 256.
\<close>

definition encode :: "string \<Rightarrow> byte list" where
  "encode data =
     concat (map (\<lambda>c. if of_char c < (128 :: nat) then [of_char c]
                       else [192 + of_char c div 64, 128 + of_char c mod 64]) data)"

text \<open>\<^verbatim>\<open>hashArray.map((b) => b.toString(16).padStart(2, "0")).join("")\<close>\<close>

definition hexdigit :: "nat \<Rightarrow> char" where
  "hexdigit n = ''0123456789abcdef'' ! n"

definition hex :: "byte list \<Rightarrow> string" where
  "hex bs = concat (map (\<lambda>b. [hexdigit (b div 16), hexdigit (b mod 16)]) bs)"

text \<open>
  \<^verbatim>\<open>calculateDigest\<close>: the branch for \<open>MD5\<close> and the last branch both call SHA-256.
\<close>

definition calculateDigest :: "string \<Rightarrow> string \<Rightarrow> string" where
  "calculateDigest algorithm data =
     (let dataBuffer = encode data;
          hashBuffer =
            (if algorithm = ''MD5'' then sha256 dataBuffer
             else if algorithm = ''SHA-256'' then sha256 dataBuffer
             else if algorithm = ''SHA-512'' then sha512 dataBuffer
             else sha256 dataBuffer)
      in hex hashBuffer)"

text \<open>\<^verbatim>\<open>md5Hash\<close>: the first 32 characters of the SHA-256 digest in hexadecimal.\<close>

definition md5Hash :: "string \<Rightarrow> string" where
  "md5Hash data = take 32 (hex (sha256 (encode data)))"

section \<open>Digest: the parser of the Authorization header\<close>

text \<open>
  \<^verbatim>\<open>parseDigestAuth\<close> runs the regular expression
  \<^verbatim>\<open>/(\w+)=(?:"([^"]*)"|([^,]*))/g\<close> over the text after \<open>Digest \<close>, one
  \<^verbatim>\<open>regex.exec\<close> after the other, each starting where the last match ended.
\<close>

definition dquote :: char where
  "dquote = CHR 0x22"

text \<open>\<^verbatim>\<open>\w\<close> is a letter, a digit or the underscore.\<close>

definition is_word :: "char \<Rightarrow> bool" where
  "is_word c =
     (let n = of_char c :: nat
      in (65 \<le> n \<and> n \<le> 90) \<or> (97 \<le> n \<and> n \<le> 122) \<or> (48 \<le> n \<and> n \<le> 57) \<or> n = 95)"

text \<open>
  The value after \<open>=\<close>, and the text left after the match. The first alternative
  \<^verbatim>\<open>"([^"]*)"\<close> needs an opening quote and a closing one; otherwise the second,
  \<^verbatim>\<open>([^,]*)\<close>, takes everything up to the next comma. The value is
  \<^verbatim>\<open>match[2] || match[3] || ""\<close>, the captured text in both cases.
\<close>

definition match_value :: "string \<Rightarrow> string \<times> string" where
  "match_value s =
     (case s of
        c # r \<Rightarrow>
          if c = dquote \<and> dquote \<in> set r
          then (takeWhile (\<lambda>x. x \<noteq> dquote) r, tl (dropWhile (\<lambda>x. x \<noteq> dquote) r))
          else (takeWhile (\<lambda>x. x \<noteq> CHR '','') s, dropWhile (\<lambda>x. x \<noteq> CHR '','') s)
      | [] \<Rightarrow> ([], []))"

text \<open>
  A match that starts at the head of the text: \<^verbatim>\<open>\w+\<close> takes the longest run of
  word characters, and \<open>=\<close> must follow it (a shorter run is followed by a word
  character, so backtracking finds nothing more). The result is the key, the value and
  the text after the match.
\<close>

definition match_at :: "string \<Rightarrow> (string \<times> string \<times> string) option" where
  "match_at s =
     (let key = takeWhile is_word s
      in case dropWhile is_word s of
           c # r \<Rightarrow>
             if key \<noteq> [] \<and> c = CHR ''=''
             then (let (v, rest) = match_value r in Some (key, v, rest))
             else None
         | [] \<Rightarrow> None)"

text \<open>\<^verbatim>\<open>regex.exec\<close>: the leftmost match, the start positions tried from left to right.\<close>

fun regex_exec :: "string \<Rightarrow> (string \<times> string \<times> string) option" where
  "regex_exec [] = None"
| "regex_exec (c # cs) =
     (case match_at (c # cs) of Some m \<Rightarrow> Some m | None \<Rightarrow> regex_exec cs)"

text \<open>
  \<^verbatim>\<open>params[key] = value\<close> on an object literal. The key \<open>__proto__\<close> is the accessor
  of \<^verbatim>\<open>Object.prototype\<close>, whose setter ignores a string: no property is stored.
\<close>

definition set_property :: "(string \<rightharpoonup> string) \<Rightarrow> string \<Rightarrow> string \<Rightarrow> (string \<rightharpoonup> string)" where
  "set_property params key v = (if key = ''__proto__'' then params else params(key \<mapsto> v))"

lemma match_value_length: "match_value s = (v, rest) \<Longrightarrow> length rest \<le> length s"
proof (cases s)
  case Nil
  assume "match_value s = (v, rest)"
  with Nil show ?thesis by (simp add: match_value_def)
next
  case (Cons c r)
  assume m: "match_value s = (v, rest)"
  have a: "length (tl (dropWhile (\<lambda>x. x \<noteq> dquote) r)) \<le> length r"
    using length_dropWhile_le [of "\<lambda>x. x \<noteq> dquote" r] by simp
  have b: "length (dropWhile (\<lambda>x. x \<noteq> CHR '','') s) \<le> length s"
    by (rule length_dropWhile_le)
  from m Cons a b show ?thesis
    by (auto simp: match_value_def split: if_splits)
qed

lemma match_at_length: "match_at s = Some (k, v, rest) \<Longrightarrow> length rest < length s"
proof -
  assume m: "match_at s = Some (k, v, rest)"
  then obtain c r where d: "dropWhile is_word s = c # r" and mv: "match_value r = (v, rest)"
    by (auto simp: match_at_def Let_def split: list.splits if_splits prod.splits)
  have "length (dropWhile is_word s) \<le> length s" by (rule length_dropWhile_le)
  with d have "length r < length s" by simp
  with match_value_length [OF mv] show ?thesis by simp
qed

lemma regex_exec_length: "regex_exec s = Some (k, v, rest) \<Longrightarrow> length rest < length s"
proof (induction s)
  case Nil
  then show ?case by simp
next
  case (Cons c cs)
  show ?case
  proof (cases "match_at (c # cs)")
    case None
    with Cons show ?thesis by simp
  next
    case (Some m)
    with Cons.prems have "match_at (c # cs) = Some (k, v, rest)" by simp
    then show ?thesis by (rule match_at_length)
  qed
qed

text \<open>The \<^verbatim>\<open>while (match !== null)\<close> loop.\<close>

function parse_pairs :: "string \<Rightarrow> (string \<rightharpoonup> string) \<Rightarrow> (string \<rightharpoonup> string)" where
  "parse_pairs s params =
     (case regex_exec s of
        None \<Rightarrow> params
      | Some (key, v, rest) \<Rightarrow>
          parse_pairs rest (if key \<noteq> [] then set_property params key v else params))"
  by pat_completeness auto
termination
  by (relation "measure (\<lambda>(s, params). length s)") (auto dest: regex_exec_length)

definition parseDigestAuth :: "string \<Rightarrow> (string \<rightharpoonup> string) option" where
  "parseDigestAuth authHeader =
     (if authHeader = [] \<or> \<not> startsWith authHeader ''Digest '' then None
      else Some (parse_pairs (substring authHeader 7) Map.empty))"

section \<open>Digest: nonce and challenge\<close>

text \<open>\<^verbatim>\<open>s.replace(/c/g, r)\<close> for a single character \<open>c\<close>.\<close>

definition replace_all :: "char \<Rightarrow> string \<Rightarrow> string \<Rightarrow> string" where
  "replace_all c r s = concat (map (\<lambda>x. if x = c then r else [x]) s)"

text \<open>
  \<^verbatim>\<open>generateNonce\<close>. The bytes that \<^verbatim>\<open>crypto.getRandomValues\<close> writes are an
  argument of the model.
\<close>

definition generateNonce :: "byte list \<Rightarrow> string" where
  "generateNonce randomBytes =
     replace_all CHR ''='' []
       (replace_all CHR ''/'' ''_''
         (replace_all CHR ''+'' ''-'' (btoa (map char_of randomBytes))))"

text \<open>A string or \<^verbatim>\<open>null\<close>/\<^verbatim>\<open>undefined\<close> in a condition: true when present and not empty.\<close>

definition truthy :: "string option \<Rightarrow> bool" where
  "truthy x = (case x of None \<Rightarrow> False | Some s \<Rightarrow> s \<noteq> [])"

text \<open>A value in a template literal.\<close>

definition str :: "string option \<Rightarrow> string" where
  "str x = (case x of None \<Rightarrow> ''undefined'' | Some s \<Rightarrow> s)"

definition generateDigestChallenge ::
  "byte list \<Rightarrow> string \<Rightarrow> string option \<Rightarrow> string option \<Rightarrow> bool \<Rightarrow> string" where
  "generateDigestChallenge randomBytes realm qop algorithm stale =
     (let nonce = generateNonce randomBytes;
          challenge = ''Digest realm='' @ [dquote] @ realm @ [dquote] @
                      '', nonce='' @ [dquote] @ nonce @ [dquote];
          challenge = (if truthy qop
                       then challenge @ '', qop='' @ [dquote] @ str qop @ [dquote]
                       else challenge);
          challenge = (if truthy algorithm
                       then challenge @ '', algorithm='' @ str algorithm
                       else challenge);
          challenge = (if stale then challenge @ '', stale=true'' else challenge)
      in challenge)"

section \<open>Digest: verification\<close>

text \<open>
  The choice \<^verbatim>\<open>algorithm === "MD5" ? md5Hash(x) : calculateDigest(algorithm, x)\<close>,
  which \<^verbatim>\<open>checkDigestAuth\<close> writes out at each of its hashes.
\<close>

definition digest :: "string \<Rightarrow> string \<Rightarrow> string" where
  "digest algorithm data =
     (if algorithm = ''MD5'' then md5Hash data else calculateDigest algorithm data)"

text \<open>Lines 140 to 147: HA1, over the realm of the parsed header.\<close>

definition digest_HA1 :: "string \<Rightarrow> string \<Rightarrow> (string \<rightharpoonup> string) \<Rightarrow> string \<Rightarrow> string" where
  "digest_HA1 algorithm username authParams password =
     digest algorithm (username @ '':'' @ str (authParams ''realm'') @ '':'' @ password)"

text \<open>
  Lines 149 to 156: HA2. The source is
  \<^verbatim>\<open>const A2 = qop ? `${method}:${uri}` : `${method}:${uri}`\<close>, both branches the same.
\<close>

definition digest_A2 :: "string option \<Rightarrow> string \<Rightarrow> string \<Rightarrow> string" where
  "digest_A2 qop method uri =
     (if truthy qop then method @ '':'' @ uri else method @ '':'' @ uri)"

definition digest_HA2 :: "string \<Rightarrow> string option \<Rightarrow> string \<Rightarrow> string \<Rightarrow> string" where
  "digest_HA2 algorithm qop method uri = digest algorithm (digest_A2 qop method uri)"

text \<open>Lines 158 to 174: the expected response.\<close>

definition digest_response ::
  "string \<Rightarrow> string option \<Rightarrow> (string \<rightharpoonup> string) \<Rightarrow> string \<Rightarrow> string \<Rightarrow> string" where
  "digest_response algorithm qop authParams HA1 HA2 =
     (if truthy qop \<and> truthy (authParams ''nc'') \<and> truthy (authParams ''cnonce'')
      then digest algorithm
             (HA1 @ '':'' @ str (authParams ''nonce'') @ '':'' @ str (authParams ''nc'') @ '':'' @
              str (authParams ''cnonce'') @ '':'' @ str qop @ '':'' @ HA2)
      else digest algorithm (HA1 @ '':'' @ str (authParams ''nonce'') @ '':'' @ HA2))"

definition checkDigestAuth ::
  "(string \<rightharpoonup> string) \<Rightarrow> string \<Rightarrow> string \<Rightarrow> string \<Rightarrow> string \<Rightarrow> string option \<Rightarrow> string \<Rightarrow> bool" where
  "checkDigestAuth authParams username password method uri qop algorithm =
     (if \<not> truthy (authParams ''username'') \<or> \<not> truthy (authParams ''realm'') \<or>
         \<not> truthy (authParams ''nonce'')
      then False
      else if authParams ''username'' \<noteq> Some username then False
      else (let HA1 = digest_HA1 algorithm username authParams password;
                HA2 = digest_HA2 algorithm qop method uri;
                response = digest_response algorithm qop authParams HA1 HA2
            in authParams ''response'' = Some response))"

section \<open>Digest: the routes\<close>

text \<open>
  What a handler reads of the request: \<^verbatim>\<open>c.req.method\<close>, the text
  \<^verbatim>\<open>url.pathname + url.search\<close> of \<^verbatim>\<open>c.req.url\<close>, and
  \<^verbatim>\<open>c.req.header("authorization")\<close>.
\<close>

record request =
  req_method :: string
  req_uri :: string
  authorization :: "string option"

definition digest_challenge :: "string \<Rightarrow> response" where
  "digest_challenge challenge = c_body Null 401 [(''WWW-Authenticate'', challenge)]"

definition authenticated :: "string \<Rightarrow> response" where
  "authenticated user = c_json [(''authenticated'', JBool True), (''user'', JString user)]"

text \<open>\<^verbatim>\<open>authentication.get("/digest-auth/:qop/:user/:passwd", ...)\<close>\<close>

definition digest_auth_md5 :: "byte list \<Rightarrow> string \<Rightarrow> string \<Rightarrow> string \<Rightarrow> request \<Rightarrow> response" where
  "digest_auth_md5 randomBytes qop user passwd req =
     (if qop \<noteq> ''auth'' \<and> qop \<noteq> ''auth-int'' then c_body (Text ''Invalid value for qop'') 400 []
      else
        (let authHeader = authorization req;
             realm = ''Fake Realm''
         in if \<not> truthy authHeader
            then digest_challenge (generateDigestChallenge randomBytes realm (Some qop) None False)
            else (case parseDigestAuth (str authHeader) of
                    None \<Rightarrow>
                      digest_challenge
                        (generateDigestChallenge randomBytes realm (Some qop) None False)
                  | Some authParams \<Rightarrow>
                      if \<not> checkDigestAuth authParams user passwd (req_method req) (req_uri req)
                             (Some qop) ''MD5''
                      then digest_challenge
                             (generateDigestChallenge randomBytes realm (Some qop) None False)
                      else authenticated user)))"

text \<open>\<^verbatim>\<open>authentication.get("/digest-auth/:qop/:user/:passwd/:algorithm", ...)\<close>\<close>

definition digest_auth_nostale ::
  "byte list \<Rightarrow> string \<Rightarrow> string \<Rightarrow> string \<Rightarrow> string \<Rightarrow> request \<Rightarrow> response" where
  "digest_auth_nostale randomBytes qop user passwd algorithm req =
     (if qop \<noteq> ''auth'' \<and> qop \<noteq> ''auth-int'' then c_body (Text ''Invalid value for qop'') 400 []
      else if algorithm \<noteq> ''MD5'' \<and> algorithm \<noteq> ''SHA-256'' \<and> algorithm \<noteq> ''SHA-512''
      then c_body (Text ''Invalid value for algorithm'') 400 []
      else
        (let authHeader = authorization req;
             realm = ''Fake Realm''
         in if \<not> truthy authHeader
            then digest_challenge
                   (generateDigestChallenge randomBytes realm (Some qop) (Some algorithm) False)
            else (case parseDigestAuth (str authHeader) of
                    None \<Rightarrow>
                      digest_challenge
                        (generateDigestChallenge randomBytes realm (Some qop) (Some algorithm) False)
                  | Some authParams \<Rightarrow>
                      if \<not> checkDigestAuth authParams user passwd (req_method req) (req_uri req)
                             (Some qop) algorithm
                      then digest_challenge
                             (generateDigestChallenge randomBytes realm (Some qop) (Some algorithm)
                                False)
                      else authenticated user)))"

text \<open>
  \<^verbatim>\<open>parseInt(staleAfter, 10)\<close>: leading white space is skipped, a sign is read, then
  the longest run of decimal digits; no digit gives \<^verbatim>\<open>NaN\<close>, here \<open>None\<close>. The result
  is the exact integer: the handler only compares it with zero, and the rounding of
  JavaScript numbers keeps the sign and keeps zero.
\<close>

definition is_js_whitespace :: "char \<Rightarrow> bool" where
  "is_js_whitespace c = (of_char c \<in> {9, 10, 11, 12, 13, 32, 160 :: nat})"

definition is_digit :: "char \<Rightarrow> bool" where
  "is_digit c = (48 \<le> (of_char c :: nat) \<and> (of_char c :: nat) \<le> 57)"

definition digits_value :: "string \<Rightarrow> int" where
  "digits_value z = foldl (\<lambda>acc c. acc * 10 + (of_char c - 48)) 0 z"

definition parseInt :: "string \<Rightarrow> int option" where
  "parseInt input =
     (let s = dropWhile is_js_whitespace input;
          negative = (case s of c # _ \<Rightarrow> c = CHR ''-'' | [] \<Rightarrow> False);
          s = (case s of c # r \<Rightarrow> if c = CHR ''+'' \<or> c = CHR ''-'' then r else s | [] \<Rightarrow> s);
          z = takeWhile is_digit s
      in if z = [] then None
         else Some (if negative then - digits_value z else digits_value z))"

text \<open>
  \<^verbatim>\<open>staleAfter !== "never" && !Number.isNaN(parseInt(staleAfter, 10)) &&
  parseInt(staleAfter, 10) <= 0\<close>
\<close>

definition shouldBeStale :: "string \<Rightarrow> bool" where
  "shouldBeStale staleAfter =
     (staleAfter \<noteq> ''never'' \<and>
      (case parseInt staleAfter of None \<Rightarrow> False | Some n \<Rightarrow> n \<le> 0))"

text \<open>\<^verbatim>\<open>authentication.get("/digest-auth/:qop/:user/:passwd/:algorithm/:stale_after", ...)\<close>\<close>

definition digest_auth ::
  "byte list \<Rightarrow> string \<Rightarrow> string \<Rightarrow> string \<Rightarrow> string \<Rightarrow> string \<Rightarrow> request \<Rightarrow> response" where
  "digest_auth randomBytes qop user passwd algorithm staleAfter req =
     (if qop \<noteq> ''auth'' \<and> qop \<noteq> ''auth-int'' then c_body (Text ''Invalid value for qop'') 400 []
      else if algorithm \<noteq> ''MD5'' \<and> algorithm \<noteq> ''SHA-256'' \<and> algorithm \<noteq> ''SHA-512''
      then c_body (Text ''Invalid value for algorithm'') 400 []
      else
        (let authHeader = authorization req;
             realm = ''Fake Realm'';
             stale = shouldBeStale staleAfter
         in if \<not> truthy authHeader
            then digest_challenge
                   (generateDigestChallenge randomBytes realm (Some qop) (Some algorithm) stale)
            else (case parseDigestAuth (str authHeader) of
                    None \<Rightarrow>
                      digest_challenge
                        (generateDigestChallenge randomBytes realm (Some qop) (Some algorithm) stale)
                  | Some authParams \<Rightarrow>
                      if \<not> checkDigestAuth authParams user passwd (req_method req) (req_uri req)
                             (Some qop) algorithm
                      then digest_challenge
                             (generateDigestChallenge randomBytes realm (Some qop) (Some algorithm)
                                stale)
                      else authenticated user)))"

section \<open>The header grammar of the specification\<close>

text \<open>
  The specification describes the text after \<open>Digest \<close> as a comma-separated list of
  \<open>key=value\<close> and \<open>key="value"\<close> pairs. A field of such a list is a quoted pair, a bare
  pair, or text that is no pair; the fields are joined by a comma and a space, as the
  challenge builder joins them. A quoted value holds no quote; a bare value holds no comma
  and does not start with a quote; a key is a non-empty run of word characters; text that
  is no pair holds no \<open>=\<close>.
\<close>

datatype field = Quoted string string | Bare string string | Malformed string

fun field_text :: "field \<Rightarrow> string" where
  "field_text (Quoted k v) = k @ ''='' @ [dquote] @ v @ [dquote]"
| "field_text (Bare k v) = k @ ''='' @ v"
| "field_text (Malformed j) = j"

fun fields_text :: "field list \<Rightarrow> string" where
  "fields_text [] = []"
| "fields_text [f] = field_text f"
| "fields_text (f # g # fs) = field_text f @ '', '' @ fields_text (g # fs)"

definition is_key :: "string \<Rightarrow> bool" where
  "is_key k = (k \<noteq> [] \<and> list_all is_word k)"

fun well_formed :: "field \<Rightarrow> bool" where
  "well_formed (Quoted k v) = (is_key k \<and> dquote \<notin> set v)"
| "well_formed (Bare k v) = (is_key k \<and> CHR '','' \<notin> set v \<and> take 1 v \<noteq> [dquote])"
| "well_formed (Malformed j) = (CHR ''='' \<notin> set j)"

fun field_pairs :: "field list \<Rightarrow> (string \<times> string) list" where
  "field_pairs [] = []"
| "field_pairs (Quoted k v # fs) = (k, v) # field_pairs fs"
| "field_pairs (Bare k v # fs) = (k, v) # field_pairs fs"
| "field_pairs (Malformed j # fs) = field_pairs fs"

text \<open>The pairs of a list stored one after the other, as the loop of the parser stores them.\<close>

definition store_pairs :: "(string \<rightharpoonup> string) \<Rightarrow> (string \<times> string) list \<Rightarrow> (string \<rightharpoonup> string)" where
  "store_pairs m ps = foldl (\<lambda>m (k, v). set_property m k v) m ps"

text \<open>The fields of a challenge, in the order of \<^verbatim>\<open>generateDigestChallenge\<close>.\<close>

definition challenge_fields :: "string \<Rightarrow> string \<Rightarrow> string option \<Rightarrow> string option \<Rightarrow> bool \<Rightarrow> field list" where
  "challenge_fields realm nonce qop algorithm stale =
     [Quoted ''realm'' realm, Quoted ''nonce'' nonce] @
     (if truthy qop then [Quoted ''qop'' (str qop)] else []) @
     (if truthy algorithm then [Bare ''algorithm'' (str algorithm)] else []) @
     (if stale then [Bare ''stale'' ''true''] else [])"

section \<open>The hash chain of the specification\<close>

text \<open>
  Section 4.3 of the specification, in its words: HA1 is the hash of
  \<open>username:realm:password\<close>; HA2 is the hash of \<open>method:uri\<close> when \<open>qop\<close> is absent or
  \<open>auth\<close>, and the hash of \<open>method:uri:hash(entityBody)\<close> when \<open>qop\<close> is \<open>auth-int\<close>; the
  response is the hash of \<open>HA1:nonce:nc:cnonce:qop:HA2\<close>, or in the legacy form of RFC 2069
  the hash of \<open>HA1:nonce:HA2\<close>. The hash is the one the code uses for the algorithm.
\<close>

definition spec_HA1 :: "string \<Rightarrow> string \<Rightarrow> string \<Rightarrow> string \<Rightarrow> string" where
  "spec_HA1 algorithm username realm password =
     digest algorithm (username @ '':'' @ realm @ '':'' @ password)"

definition spec_HA2 :: "string \<Rightarrow> string option \<Rightarrow> string \<Rightarrow> string \<Rightarrow> string \<Rightarrow> string" where
  "spec_HA2 algorithm qop method uri entityBody =
     (if qop = Some ''auth-int''
      then digest algorithm (method @ '':'' @ uri @ '':'' @ digest algorithm entityBody)
      else digest algorithm (method @ '':'' @ uri))"

definition spec_response_qop ::
  "string \<Rightarrow> string \<Rightarrow> string \<Rightarrow> string \<Rightarrow> string \<Rightarrow> string \<Rightarrow> string \<Rightarrow> string" where
  "spec_response_qop algorithm HA1 nonce nc cnonce qop HA2 =
     digest algorithm
       (HA1 @ '':'' @ nonce @ '':'' @ nc @ '':'' @ cnonce @ '':'' @ qop @ '':'' @ HA2)"

definition spec_response_legacy :: "string \<Rightarrow> string \<Rightarrow> string \<Rightarrow> string \<Rightarrow> string" where
  "spec_response_legacy algorithm HA1 nonce HA2 = digest algorithm (HA1 @ '':'' @ nonce @ '':'' @ HA2)"

text \<open>
  What a client sends that follows the legacy form and supplies neither \<open>nc\<close> nor
  \<open>cnonce\<close>: the parsed credentials, and the header that carries them.
\<close>

definition legacy_params :: "string \<Rightarrow> string \<Rightarrow> string \<Rightarrow> string \<Rightarrow> string \<Rightarrow> string \<Rightarrow> string \<Rightarrow> (string \<rightharpoonup> string)" where
  "legacy_params algorithm username realm password method uri nonce =
     [''username'' \<mapsto> username, ''realm'' \<mapsto> realm, ''nonce'' \<mapsto> nonce,
      ''response'' \<mapsto>
        spec_response_legacy algorithm (spec_HA1 algorithm username realm password) nonce
          (spec_HA2 algorithm None method uri [])]"

definition legacy_header :: "string \<Rightarrow> string \<Rightarrow> string \<Rightarrow> string \<Rightarrow> string \<Rightarrow> string \<Rightarrow> string \<Rightarrow> string" where
  "legacy_header algorithm username realm password method uri nonce =
     ''Digest username='' @ [dquote] @ username @ [dquote] @
     '', realm='' @ [dquote] @ realm @ [dquote] @
     '', nonce='' @ [dquote] @ nonce @ [dquote] @
     '', response='' @ [dquote] @
       spec_response_legacy algorithm (spec_HA1 algorithm username realm password) nonce
         (spec_HA2 algorithm None method uri []) @ [dquote]"

section \<open>Auxiliary functions\<close>

text \<open>
  The 6-bit groups that \<^verbatim>\<open>btoa\<close> encodes, and the padding it appends: \<open>btoa_bytes bs\<close> is
  the characters of \<open>sextets bs\<close> followed by \<open>padding bs\<close>.
\<close>

fun sextets :: "nat list \<Rightarrow> nat list" where
  "sextets [] = []"
| "sextets [a] = [a div 4, a mod 4 * 16]"
| "sextets [a, b] = [a div 4, a mod 4 * 16 + b div 16, b mod 16 * 4]"
| "sextets (a # b # c # r) =
     [a div 4, a mod 4 * 16 + b div 16, b mod 16 * 4 + c div 64, c mod 64] @ sextets r"

fun padding :: "nat list \<Rightarrow> string" where
  "padding [] = []"
| "padding [a] = ''==''"
| "padding [a, b] = ''=''"
| "padding (a # b # c # r) = padding r"

section \<open>Lemmas\<close>

subsection \<open>The regular expression\<close>

declare parse_pairs.simps [simp del]

lemma match_at_nonword: "\<not> is_word c \<Longrightarrow> match_at (c # cs) = None"
  by (simp add: match_at_def)

lemma regex_exec_skip: "\<not> is_word c \<Longrightarrow> regex_exec (c # cs) = regex_exec cs"
  by (simp add: match_at_nonword)

lemma not_word_eq: "\<not> is_word CHR ''=''" and not_word_comma: "\<not> is_word CHR '',''"
  and not_word_space: "\<not> is_word CHR '' ''"
  by (simp_all add: is_word_def)

lemma match_at_key:
  assumes "k \<noteq> []" and "\<forall>c\<in>set k. is_word c"
  shows "match_at (k @ CHR ''='' # s) = Some (k, fst (match_value s), snd (match_value s))"
proof -
  have t: "takeWhile is_word (k @ CHR ''='' # s) = k"
    using assms(2) by (simp add: takeWhile_append2 not_word_eq)
  have d: "dropWhile is_word (k @ CHR ''='' # s) = CHR ''='' # s"
    using assms(2) by (simp add: dropWhile_append2 not_word_eq)
  show ?thesis
    using assms(1) by (simp add: match_at_def t d split: prod.splits)
qed

lemma regex_exec_key:
  assumes "k \<noteq> []" and "\<forall>c\<in>set k. is_word c"
  shows "regex_exec (k @ CHR ''='' # s) = Some (k, fst (match_value s), snd (match_value s))"
proof -
  from assms(1) obtain c k' where k: "k = c # k'" by (cases k) auto
  have "regex_exec ((c # k') @ CHR ''='' # s) =
        (case match_at (k @ CHR ''='' # s) of Some m \<Rightarrow> Some m
         | None \<Rightarrow> regex_exec (k' @ CHR ''='' # s))"
    by (simp add: k)
  with match_at_key [OF assms, of s] k show ?thesis by simp
qed

lemma takeWhile_until: "x \<notin> set v \<Longrightarrow> takeWhile (\<lambda>y. y \<noteq> x) (v @ x # rest) = v"
  by (induction v) auto

lemma dropWhile_until: "x \<notin> set v \<Longrightarrow> dropWhile (\<lambda>y. y \<noteq> x) (v @ x # rest) = x # rest"
  by (induction v) auto

lemma takeWhile_all: "x \<notin> set v \<Longrightarrow> takeWhile (\<lambda>y. y \<noteq> x) v = v"
  by (induction v) auto

lemma dropWhile_all: "x \<notin> set v \<Longrightarrow> dropWhile (\<lambda>y. y \<noteq> x) v = []"
  by (induction v) auto

lemma match_value_quoted:
  "dquote \<notin> set v \<Longrightarrow> match_value (dquote # v @ dquote # rest) = (v, rest)"
  by (simp add: match_value_def takeWhile_until dropWhile_until)

lemma match_value_bare_end:
  "CHR '','' \<notin> set v \<Longrightarrow> v = [] \<or> hd v \<noteq> dquote \<Longrightarrow> match_value v = (v, [])"
  by (cases v) (auto simp: match_value_def takeWhile_all dropWhile_all)

lemma match_value_bare:
  "CHR '','' \<notin> set v \<Longrightarrow> v = [] \<or> hd v \<noteq> dquote \<Longrightarrow>
   match_value (v @ CHR '','' # rest) = (v, CHR '','' # rest)"
  by (cases v) (auto simp: match_value_def takeWhile_until dropWhile_until dquote_def
       takeWhile_until [of _ "_ # _", simplified] dropWhile_until [of _ "_ # _", simplified])

lemma match_at_no_eq:
  assumes "CHR ''='' \<notin> set j"
  shows "match_at (j @ t) = None \<or> (\<forall>c\<in>set j. is_word c)"
proof (cases "\<forall>c\<in>set j. is_word c")
  case True
  then show ?thesis by simp
next
  case False
  then have d: "dropWhile is_word (j @ t) = dropWhile is_word j @ t"
    by (auto simp: dropWhile_append)
  from False have ne: "dropWhile is_word j \<noteq> []" by (simp add: dropWhile_eq_Nil_conv)
  then have "hd (dropWhile is_word j) \<in> set j"
    by (metis hd_in_set set_dropWhileD)
  with assms have "hd (dropWhile is_word j) \<noteq> CHR ''=''" by auto
  with ne d show ?thesis
    by (cases "dropWhile is_word j") (auto simp: match_at_def)
qed

lemma match_at_junk:
  assumes "CHR ''='' \<notin> set j" and "\<not> is_word c" and "c \<noteq> CHR ''=''"
  shows "match_at (j @ c # t) = None"
proof (cases "\<forall>x\<in>set j. is_word x")
  case True
  then have "dropWhile is_word (j @ c # t) = c # t"
    using assms(2) by (simp add: dropWhile_append2)
  with assms(3) show ?thesis by (simp add: match_at_def)
next
  case False
  with match_at_no_eq [OF assms(1), of "c # t"] show ?thesis by simp
qed

lemma regex_exec_junk:
  assumes "CHR ''='' \<notin> set j" and "\<not> is_word c" and "c \<noteq> CHR ''=''"
  shows "regex_exec (j @ c # t) = regex_exec (c # t)"
  using assms(1)
proof (induction j)
  case Nil
  then show ?case by simp
next
  case (Cons x j)
  then have "CHR ''='' \<notin> set (x # j)" by simp
  from match_at_junk [OF this assms(2,3), of t] Cons show ?case by simp
qed

lemma regex_exec_no_eq: "CHR ''='' \<notin> set j \<Longrightarrow> regex_exec j = None"
proof (induction j)
  case Nil
  then show ?case by simp
next
  case (Cons x j)
  have "match_at (x # j) = None"
  proof (cases "\<forall>c\<in>set (x # j). is_word c")
    case True
    then have "dropWhile is_word (x # j) = []" by simp
    then show ?thesis by (simp add: match_at_def)
  next
    case False
    from match_at_no_eq [OF Cons.prems, of "[]"] have
      "match_at (x # j) = None \<or> (\<forall>c\<in>set (x # j). is_word c)" by simp
    with False show ?thesis by blast
  qed
  with Cons show ?case by simp
qed

lemma parse_pairs_cong: "regex_exec s = regex_exec t \<Longrightarrow> parse_pairs s m = parse_pairs t m"
  by (simp add: parse_pairs.simps [of s] parse_pairs.simps [of t])

lemma parse_pairs_None: "regex_exec s = None \<Longrightarrow> parse_pairs s m = m"
  by (simp add: parse_pairs.simps [of s])

lemma parse_pairs_Some:
  "regex_exec s = Some (k, v, rest) \<Longrightarrow> k \<noteq> [] \<Longrightarrow>
   parse_pairs s m = parse_pairs rest (set_property m k v)"
  by (simp add: parse_pairs.simps [of s])

lemma parse_pairs_sep: "parse_pairs (CHR '','' # CHR '' '' # s) m = parse_pairs s m"
  by (rule parse_pairs_cong) (simp add: match_at_nonword not_word_comma not_word_space)

subsection \<open>Lists of fields\<close>

lemma store_pairs_simps [simp]:
  "store_pairs m [] = m"
  "store_pairs m ((k, v) # ps) = store_pairs (set_property m k v) ps"
  by (simp_all add: store_pairs_def)

lemma regex_exec_field:
  assumes "well_formed f" and "t = [] \<or> (\<exists>t'. t = CHR '','' # t')"
  shows "regex_exec (field_text f @ t) =
           (case f of Quoted k v \<Rightarrow> Some (k, v, t) | Bare k v \<Rightarrow> Some (k, v, t)
            | Malformed j \<Rightarrow> regex_exec t)"
proof (cases f)
  case (Quoted k v)
  with assms(1) have k: "k \<noteq> []" "\<forall>c\<in>set k. is_word c" and v: "dquote \<notin> set v"
    by (auto simp: is_key_def list_all_iff)
  from regex_exec_key [OF k, of "dquote # v @ dquote # t"] match_value_quoted [OF v, of t]
  show ?thesis by (simp add: Quoted)
next
  case (Bare k v)
  with assms(1) have k: "k \<noteq> []" "\<forall>c\<in>set k. is_word c"
    and v: "CHR '','' \<notin> set v" "v = [] \<or> hd v \<noteq> dquote"
    by (auto simp: is_key_def list_all_iff) (cases v; simp)+
  from assms(2) have "match_value (v @ t) = (v, t)"
    using match_value_bare_end [OF v] match_value_bare [OF v] by auto
  with regex_exec_key [OF k, of "v @ t"] show ?thesis by (simp add: Bare)
next
  case (Malformed j)
  with assms(1) have j: "CHR ''='' \<notin> set j" by simp
  from assms(2) show ?thesis
  proof
    assume "t = []"
    with regex_exec_no_eq [OF j] show ?thesis by (simp add: Malformed)
  next
    assume "\<exists>t'. t = CHR '','' # t'"
    then obtain t' where "t = CHR '','' # t'" ..
    with regex_exec_junk [OF j not_word_comma, of t'] show ?thesis by (simp add: Malformed)
  qed
qed

lemma parse_pairs_field:
  assumes "well_formed f" and "t = [] \<or> (\<exists>t'. t = CHR '','' # t')"
  shows "parse_pairs (field_text f @ t) m = parse_pairs t (store_pairs m (field_pairs [f]))"
proof (cases f)
  case (Quoted k v)
  with assms(1) have "k \<noteq> []" by (simp add: is_key_def)
  with regex_exec_field [OF assms] Quoted show ?thesis
    by (simp add: parse_pairs_Some)
next
  case (Bare k v)
  with assms(1) have "k \<noteq> []" by (simp add: is_key_def)
  with regex_exec_field [OF assms] Bare show ?thesis
    by (simp add: parse_pairs_Some)
next
  case (Malformed j)
  with regex_exec_field [OF assms] have "regex_exec (field_text f @ t) = regex_exec t" by simp
  then have "parse_pairs (field_text f @ t) m = parse_pairs t m" by (rule parse_pairs_cong)
  then show ?thesis by (simp add: Malformed)
qed

lemma field_pairs_Cons: "field_pairs (f # fs) = field_pairs [f] @ field_pairs fs"
  by (cases f) simp_all

lemma store_pairs_append: "store_pairs m (ps @ qs) = store_pairs (store_pairs m ps) qs"
  by (simp add: store_pairs_def)

lemma parse_pairs_fields:
  "list_all well_formed fs \<Longrightarrow>
   parse_pairs (fields_text fs) m = store_pairs m (field_pairs fs)"
proof (induction fs arbitrary: m rule: fields_text.induct)
  case 1
  then show ?case by (simp add: parse_pairs_None)
next
  case (2 f)
  then have "well_formed f" by simp
  from parse_pairs_field [OF this, of "[]" m] show ?case
    by (simp add: parse_pairs_None)
next
  case (3 f g fs)
  then have f: "well_formed f" and r: "list_all well_formed (g # fs)" by simp_all
  have "parse_pairs (fields_text (f # g # fs)) m =
        parse_pairs (field_text f @ CHR '','' # CHR '' '' # fields_text (g # fs)) m"
    by simp
  also have "\<dots> = parse_pairs (CHR '','' # CHR '' '' # fields_text (g # fs))
                     (store_pairs m (field_pairs [f]))"
    by (rule parse_pairs_field [OF f]) simp
  also have "\<dots> = parse_pairs (fields_text (g # fs)) (store_pairs m (field_pairs [f]))"
    by (rule parse_pairs_sep)
  also have "\<dots> = store_pairs (store_pairs m (field_pairs [f])) (field_pairs (g # fs))"
    by (rule "3.IH" [OF r])
  also have "\<dots> = store_pairs m (field_pairs (f # g # fs))"
    by (simp add: field_pairs_Cons [of f "g # fs"] store_pairs_append)
  finally show ?case .
qed


subsection \<open>The characters of a nonce\<close>

lemma b64chars_length: "length b64chars = 64"
  by (simp add: b64chars_def)

lemma b64char_in: "n < 64 \<Longrightarrow> b64char n \<in> set b64chars"
  by (simp add: b64char_def b64chars_length)

lemma btoa_bytes_chars:
  "\<forall>b\<in>set bs. b < 256 \<Longrightarrow> set (btoa_bytes bs) \<subseteq> insert CHR ''='' (set b64chars)"
proof (induction bs rule: btoa_bytes.induct)
  case 1
  then show ?case by simp
next
  case (2 a)
  then have "a div 4 < 64" "a mod 4 * 16 < 64" by auto
  then show ?case by (simp add: b64char_in)
next
  case (3 a b)
  then have "a div 4 < 64" "a mod 4 * 16 + b div 16 < 64" "b mod 16 * 4 < 64" by auto
  then show ?case by (simp add: b64char_in)
next
  case (4 a b c r)
  then have "a div 4 < 64" "a mod 4 * 16 + b div 16 < 64" "b mod 16 * 4 + c div 64 < 64"
    "c mod 64 < 64" by auto
  with 4 show ?case by (auto simp: b64char_in)
qed

lemma of_char_less: "(of_char c :: nat) < 256"
  by (metis mod_less_divisor of_char_mod_256 zero_less_numeral)

lemma btoa_chars: "set (btoa s) \<subseteq> insert CHR ''='' (set b64chars)"
  unfolding btoa_def by (rule btoa_bytes_chars) (simp add: of_char_less)

lemma set_replace_all: "set (replace_all c r s) \<subseteq> (set s - {c}) \<union> set r"
  by (induction s) (auto simp: replace_all_def)

lemma nonce_chars:
  "set (generateNonce randomBytes) \<subseteq> set b64chars \<union> {CHR ''-'', CHR ''_''}"
proof -
  let ?b = "btoa (map char_of randomBytes)"
  let ?p = "replace_all CHR ''+'' ''-'' ?b"
  let ?s = "replace_all CHR ''/'' ''_'' ?p"
  have "set ?p \<subseteq> insert CHR ''='' (set b64chars) \<union> {CHR ''-''}"
    using set_replace_all [of "CHR ''+''" "''-''" ?b] btoa_chars [of "map char_of randomBytes"]
    by auto
  then have "set ?s \<subseteq> insert CHR ''='' (set b64chars) \<union> {CHR ''-'', CHR ''_''}"
    using set_replace_all [of "CHR ''/''" "''_''" ?p] by auto
  then have "set (replace_all CHR ''='' [] ?s) \<subseteq> set b64chars \<union> {CHR ''-'', CHR ''_''}"
    using set_replace_all [of "CHR ''=''" "[]" ?s] by auto
  then show ?thesis by (simp add: generateNonce_def)
qed

lemma nonce_no_dquote: "dquote \<notin> set (generateNonce randomBytes)"
  using nonce_chars [of randomBytes] by (auto simp: b64chars_def dquote_def)

lemma nonce_no_eq: "CHR ''='' \<notin> set (generateNonce randomBytes)"
  using nonce_chars [of randomBytes] by (auto simp: b64chars_def)

subsection \<open>Base64: decoding an encoded text\<close>

lemma b64chars_distinct: "distinct b64chars"
  by (simp add: b64chars_def)

lemma index_of_nth: "distinct xs \<Longrightarrow> n < length xs \<Longrightarrow> index_of (xs ! n) xs = Some n"
proof (induction xs arbitrary: n)
  case Nil
  then show ?case by simp
next
  case (Cons x xs)
  show ?case
  proof (cases n)
    case 0
    then show ?thesis by simp
  next
    case (Suc m)
    with Cons.prems have "xs ! m \<in> set xs" "x \<notin> set xs" by auto
    then have "xs ! m \<noteq> x" by auto
    with Cons Suc show ?thesis by simp
  qed
qed

lemma b64index_b64char: "n < 64 \<Longrightarrow> b64index (b64char n) = Some n"
  by (simp add: b64index_def b64char_def index_of_nth b64chars_distinct b64chars_length)

lemma b64char_not_eq: "n < 64 \<Longrightarrow> b64char n \<noteq> CHR ''=''"
proof -
  assume "n < 64"
  then have "b64char n \<in> set b64chars" by (simp add: b64char_def b64chars_length)
  then show ?thesis by (auto simp: b64chars_def)
qed

lemma b64char_not_ws: "n < 64 \<Longrightarrow> \<not> is_ascii_whitespace (b64char n)"
proof -
  assume "n < 64"
  then have "b64char n \<in> set b64chars" by (simp add: b64char_def b64chars_length)
  then show ?thesis by (auto simp: b64chars_def is_ascii_whitespace_def)
qed

lemma btoa_bytes_sextets: "btoa_bytes bs = map b64char (sextets bs) @ padding bs"
  by (induction bs rule: btoa_bytes.induct) simp_all

lemma sextet_arith:
  fixes a b c :: nat
  assumes "b < 256" and "c < 256"
  shows "(a mod 4 * 16 + b div 16) div 16 = a mod 4"
    and "(a mod 4 * 16 + b div 16) mod 16 = b div 16"
    and "(b mod 16 * 4 + c div 64) div 4 = b mod 16"
    and "(b mod 16 * 4 + c div 64) mod 4 = c div 64"
proof -
  from assms have b: "b div 16 < 16" and c: "c div 64 < 4" by simp_all
  from b show "(a mod 4 * 16 + b div 16) div 16 = a mod 4" by simp
  from b show "(a mod 4 * 16 + b div 16) mod 16 = b div 16" by simp
  from c show "(b mod 16 * 4 + c div 64) div 4 = b mod 16" by simp
  from c show "(b mod 16 * 4 + c div 64) mod 4 = c div 64" by simp
qed

lemma sextets_bound: "\<forall>b\<in>set bs. b < 256 \<Longrightarrow> \<forall>s\<in>set (sextets bs). s < 64"
proof (induction bs rule: sextets.induct)
  case 1
  then show ?case by simp
next
  case (2 a)
  then have "a div 4 < 64" "a mod 4 * 16 < 64" by auto
  then show ?case by simp
next
  case (3 a b)
  then have "a div 4 < 64" "a mod 4 * 16 + b div 16 < 64" "b mod 16 * 4 < 64" by auto
  then show ?case by simp
next
  case (4 a b c r)
  then have "a div 4 < 64" "a mod 4 * 16 + b div 16 < 64" "b mod 16 * 4 + c div 64 < 64"
    "c mod 64 < 64" by auto
  with 4 show ?case by simp
qed

lemma atob_sextets_inverse: "\<forall>b\<in>set bs. b < 256 \<Longrightarrow> atob_sextets (sextets bs) = bs"
proof (induction bs rule: sextets.induct)
  case 1
  then show ?case by simp
next
  case (2 a)
  show ?case by simp
next
  case (3 a b)
  then have "b < 256" by simp
  from sextet_arith(1,2) [OF this this] show ?case by simp
next
  case (4 a b c r)
  then have "b < 256" "c < 256" by simp_all
  from sextet_arith [OF this] 4 show ?case by simp
qed

lemma padding_cases: "padding bs = [] \<or> padding bs = ''=='' \<or> padding bs = ''=''"
  by (induction bs rule: padding.induct) simp_all

lemma btoa_bytes_length: "length (btoa_bytes bs) mod 4 = 0"
  by (induction bs rule: btoa_bytes.induct) simp_all

lemma sextets_padding_length:
  "(padding bs = [] \<longrightarrow> length (sextets bs) mod 4 = 0) \<and>
   (padding bs = ''=='' \<longrightarrow> length (sextets bs) mod 4 = 2) \<and>
   (padding bs = ''='' \<longrightarrow> length (sextets bs) mod 4 = 3)"
  by (induction bs rule: padding.induct) simp_all

lemma strip_padding_none:
  assumes "d = [] \<or> last d \<noteq> CHR ''=''"
  shows "strip_padding d = d"
proof (cases d rule: rev_cases)
  case Nil
  then show ?thesis by (simp add: strip_padding_def)
next
  case (snoc ys y)
  with assms have "y \<noteq> CHR ''=''" by simp
  then show ?thesis
    unfolding strip_padding_def snoc by (cases "rev ys") simp_all
qed

lemma strip_padding_two:
  assumes "length (d @ ''=='') mod 4 = 0"
  shows "strip_padding (d @ ''=='') = d"
  using assms unfolding strip_padding_def by simp

lemma strip_padding_one:
  assumes "length (d @ ''='') mod 4 = 0" and "d \<noteq> []" and "last d \<noteq> CHR ''=''"
  shows "strip_padding (d @ ''='') = d"
proof (cases d rule: rev_cases)
  case Nil
  with assms(2) show ?thesis by simp
next
  case (snoc ys y)
  with assms(3) have "y \<noteq> CHR ''=''" by simp
  with assms(1) show ?thesis
    unfolding strip_padding_def snoc by simp
qed

lemma strip_padding_btoa:
  assumes "\<forall>b\<in>set bs. b < 256"
  shows "strip_padding (btoa_bytes bs) = map b64char (sextets bs)"
proof -
  let ?cs = "map b64char (sextets bs)"
  have len: "length (?cs @ padding bs) mod 4 = 0"
    using btoa_bytes_length [of bs] by (simp only: btoa_bytes_sextets)
  have ne: "\<forall>c\<in>set ?cs. c \<noteq> CHR ''=''"
    using sextets_bound [OF assms] by (auto simp: b64char_not_eq)
  then have last: "?cs = [] \<or> last ?cs \<noteq> CHR ''=''"
    using last_in_set [of ?cs] by blast
  from padding_cases [of bs] show ?thesis
  proof (elim disjE)
    assume p: "padding bs = []"
    from strip_padding_none [OF last] show ?thesis
      by (simp only: btoa_bytes_sextets p append_Nil2)
  next
    assume p: "padding bs = ''==''"
    from len have "length (?cs @ ''=='') mod 4 = 0" by (simp only: p)
    from strip_padding_two [OF this] show ?thesis
      by (simp only: btoa_bytes_sextets p)
  next
    assume p: "padding bs = ''=''"
    with sextets_padding_length [of bs] have "length (sextets bs) mod 4 = 3" by blast
    then have n: "?cs \<noteq> []" by auto
    with last have l: "last ?cs \<noteq> CHR ''=''" by blast
    from len have "length (?cs @ ''='') mod 4 = 0" by (simp only: p)
    from strip_padding_one [OF this n l] show ?thesis
      by (simp only: btoa_bytes_sextets p)
  qed
qed

lemma those_b64index:
  "\<forall>s\<in>set ss. s < 64 \<Longrightarrow> those (map b64index (map b64char ss)) = Some ss"
  by (induction ss) (simp_all add: b64index_b64char)

lemma btoa_bytes_no_whitespace:
  assumes "\<forall>b\<in>set bs. b < 256"
  shows "filter (\<lambda>c. \<not> is_ascii_whitespace c) (btoa_bytes bs) = btoa_bytes bs"
proof -
  have "\<forall>c\<in>set (map b64char (sextets bs)). \<not> is_ascii_whitespace c"
    using sextets_bound [OF assms] by (auto simp: b64char_not_ws)
  moreover have "\<forall>c\<in>set (padding bs). \<not> is_ascii_whitespace c"
    using padding_cases [of bs] by (auto simp: is_ascii_whitespace_def)
  ultimately show ?thesis
    by (simp only: btoa_bytes_sextets filter_append) (simp add: filter_id_conv)
qed

lemma sextets_length: "length (sextets bs) mod 4 \<noteq> 1"
  using sextets_padding_length [of bs] padding_cases [of bs] by auto

lemma atob_btoa: "atob (btoa s) = Some s"
proof -
  let ?bs = "map of_char s :: nat list"
  have b: "\<forall>b\<in>set ?bs. b < 256" by (simp add: of_char_less)
  have "atob (btoa s) =
        map_option (\<lambda>ss. map char_of (atob_sextets ss))
          (those (map b64index (map b64char (sextets ?bs))))"
    using sextets_length [of ?bs]
    by (simp add: atob_def btoa_def btoa_bytes_no_whitespace [OF b] strip_padding_btoa [OF b])
  also have "\<dots> = Some (map char_of (atob_sextets (sextets ?bs)))"
    by (simp only: those_b64index [OF sextets_bound [OF b]] option.map)
  also have "\<dots> = Some s"
    by (simp add: atob_sextets_inverse [OF b] comp_def)
  finally show ?thesis .
qed

subsection \<open>Basic and Bearer\<close>

text \<open>
  A credential without a colon in the user and in the password is accepted; the handler of
  Basic faults exactly when \<^verbatim>\<open>atob\<close> throws, and otherwise answers with the challenge or
  with the JSON body; the handler of Bearer answers 200 exactly when the value it reads
  starts with the prefix.
\<close>

lemma split_no_sep: "sep \<notin> set s \<Longrightarrow> split sep s = [s]"
  by (induction s) auto

lemma split_first: "sep \<notin> set a \<Longrightarrow> split sep (a @ sep # b) = a # split sep b"
  by (induction a) auto

lemma basic_auth_accepts:
  assumes "CHR '':'' \<notin> set user" and "CHR '':'' \<notin> set passwd"
  shows "basic_auth user passwd (Some (''Basic '' @ btoa (user @ '':'' @ passwd))) =
           Inr (c_json [(''authenticated'', JBool True), (''user'', JString user)])"
proof -
  have "split CHR '':'' (user @ '':'' @ passwd) = [user, passwd]"
    using assms by (simp add: split_first split_no_sep)
  then show ?thesis
    by (simp add: basic_auth_def startsWith_def substring_def atob_btoa at_index_def)
qed

lemma basic_auth_total:
  "basic_auth user passwd authHeader = Inl e \<longleftrightarrow>
     (\<exists>h. authHeader = Some h \<and> startsWith h ''Basic '' \<and> atob (substring h 6) = None)"
  by (cases e) (auto simp: basic_auth_def startsWith_def Let_def split: option.splits)

lemma basic_auth_status:
  "basic_auth user passwd authHeader = Inr r \<Longrightarrow>
     r = basic_challenge \<or> r = c_json [(''authenticated'', JBool True), (''user'', JString user)]"
  by (auto simp: basic_auth_def Let_def split: option.splits if_splits)

lemma bearer_accepts:
  "status (bearer authHeader) = 200 \<longleftrightarrow> (\<exists>h. authHeader = Some h \<and> startsWith h ''Bearer '')"
  by (auto simp: bearer_def c_json_def c_body_def startsWith_def split: option.splits)

text \<open>A normalised header value does not end with white space, so a token is never empty.\<close>

lemma normalize_value_last:
  "normalize_value s \<noteq> [] \<Longrightarrow> \<not> is_http_whitespace (last (normalize_value s))"
proof -
  let ?t = "dropWhile is_http_whitespace (rev (dropWhile is_http_whitespace s))"
  assume "normalize_value s \<noteq> []"
  then have ne: "?t \<noteq> []" by (simp add: normalize_value_def)
  then have "\<not> is_http_whitespace (hd ?t)" by (rule hd_dropWhile)
  moreover have "last (normalize_value s) = hd ?t"
    using ne by (simp add: normalize_value_def last_rev)
  ultimately show ?thesis by simp
qed

lemma bearer_token_not_empty:
  assumes "startsWith (normalize_value s) ''Bearer ''"
  shows "substring (normalize_value s) 7 \<noteq> []"
proof
  assume e: "substring (normalize_value s) 7 = []"
  have "normalize_value s = take 7 (normalize_value s) @ drop 7 (normalize_value s)" by simp
  with assms e have h: "normalize_value s = ''Bearer ''"
    by (simp add: startsWith_def substring_def)
  then have "is_http_whitespace (last (normalize_value s))"
    by (simp add: is_http_whitespace_def)
  moreover from h have "normalize_value s \<noteq> []" by simp
  ultimately show False using normalize_value_last by blast
qed

subsection \<open>Challenges as lists of fields\<close>

lemma challenge_as_fields:
  "generateDigestChallenge randomBytes realm qop algorithm stale =
     ''Digest '' @ fields_text (challenge_fields realm (generateNonce randomBytes) qop algorithm stale)"
  by (simp add: generateDigestChallenge_def challenge_fields_def Let_def)

lemma parseDigestAuth_fields:
  "list_all well_formed fs \<Longrightarrow>
   parseDigestAuth (''Digest '' @ fields_text fs) = Some (store_pairs Map.empty (field_pairs fs))"
  by (simp add: parseDigestAuth_def startsWith_def substring_def parse_pairs_fields)

lemma is_key_names:
  "is_key ''realm''" "is_key ''nonce''" "is_key ''qop''" "is_key ''algorithm''" "is_key ''stale''"
  by (simp_all add: is_key_def is_word_def)

subsection \<open>The staleness flag\<close>

lemma parseInt_never: "parseInt ''never'' = None"
  by (simp add: parseInt_def is_js_whitespace_def is_digit_def)

lemma parseInt_zero: "parseInt ''0'' = Some 0"
  by (simp add: parseInt_def is_js_whitespace_def is_digit_def digits_value_def)

lemma sublist_pair_append:
  assumes "sublist [a, b] (xs @ ys)"
  shows "sublist [a, b] xs \<or> sublist [a, b] ys \<or> (xs \<noteq> [] \<and> last xs = a \<and> ys \<noteq> [] \<and> hd ys = b)"
proof -
  from assms obtain xs1 xs2 where
    "sublist [a, b] xs \<or> sublist [a, b] ys \<or> ([a, b] = xs1 @ xs2 \<and> suffix xs1 xs \<and> prefix xs2 ys)"
    by (auto simp: sublist_append)
  moreover
  { assume s: "[a, b] = xs1 @ xs2" "suffix xs1 xs" "prefix xs2 ys"
    from s(1) have "xs1 = [] \<and> xs2 = [a, b] \<or> xs1 = [a] \<and> xs2 = [b] \<or> xs1 = [a, b] \<and> xs2 = []"
      by (auto simp: Cons_eq_append_conv)
    with s(2,3) have ?thesis
      by (auto simp: suffix_def prefix_def) }
  ultimately show ?thesis by blast
qed

lemma sublist_stale_pair: "sublist ''stale=true'' s \<Longrightarrow> sublist ''=t'' s"
proof -
  assume "sublist ''stale=true'' s"
  then obtain ps ss where "s = ps @ ''stale=true'' @ ss" by (auto simp: sublist_def)
  then have "s = (ps @ ''stale'') @ ''=t'' @ (''rue'' @ ss)" by simp
  then show ?thesis unfolding sublist_def by blast
qed

lemma no_stale_in_challenge:
  assumes "qop = ''auth'' \<or> qop = ''auth-int''"
    and "algorithm = ''MD5'' \<or> algorithm = ''SHA-256'' \<or> algorithm = ''SHA-512''"
  shows "\<not> sublist ''stale=true''
           (generateDigestChallenge randomBytes ''Fake Realm'' (Some qop) (Some algorithm) False)"
proof
  let ?n = "generateNonce randomBytes"
  let ?p = "''Digest realm='' @ [dquote] @ ''Fake Realm'' @ [dquote] @ '', nonce='' @ [dquote]"
  let ?q = "[dquote] @ '', qop='' @ [dquote] @ qop @ [dquote] @ '', algorithm='' @ algorithm"
  assume "sublist ''stale=true''
           (generateDigestChallenge randomBytes ''Fake Realm'' (Some qop) (Some algorithm) False)"
  then have "sublist ''=t'' (generateDigestChallenge randomBytes ''Fake Realm'' (Some qop) (Some algorithm) False)"
    by (rule sublist_stale_pair)
  moreover have "generateDigestChallenge randomBytes ''Fake Realm'' (Some qop) (Some algorithm) False
        = ?p @ (?n @ ?q)"
    using assms by (auto simp: generateDigestChallenge_def truthy_def str_def Let_def)
  ultimately have "sublist ''=t'' (?p @ (?n @ ?q))" by simp
  then have "sublist ''=t'' ?p \<or> sublist ''=t'' (?n @ ?q) \<or> last ?p = CHR ''=''"
    using sublist_pair_append [of "CHR ''=''" "CHR ''t''" ?p "?n @ ?q"] by blast
  moreover have "\<not> sublist ''=t'' ?p" by (simp add: sublist_code dquote_def)
  moreover have "last ?p \<noteq> CHR ''=''" by (simp add: dquote_def)
  ultimately have "sublist ''=t'' (?n @ ?q)" by blast
  then have "sublist ''=t'' ?n \<or> sublist ''=t'' ?q \<or> (?n \<noteq> [] \<and> last ?n = CHR ''='')"
    using sublist_pair_append [of "CHR ''=''" "CHR ''t''" ?n ?q] by blast
  moreover have "\<not> sublist ''=t'' ?n"
    using set_mono_sublist [of "''=t''" ?n] nonce_no_eq [of randomBytes] by auto
  moreover have "\<not> (?n \<noteq> [] \<and> last ?n = CHR ''='')"
    using nonce_no_eq [of randomBytes] last_in_set [of ?n] by metis
  moreover have "\<not> sublist ''=t'' ?q"
    using assms by (auto simp: sublist_code dquote_def)
  ultimately show False by blast
qed

lemma challenge_stale:
  "generateDigestChallenge randomBytes realm qop algorithm True =
     generateDigestChallenge randomBytes realm qop algorithm False @ '', stale=true''"
  by (simp add: generateDigestChallenge_def Let_def)

lemma stale_suffix:
  "sublist ''stale=true'' (generateDigestChallenge randomBytes realm qop algorithm True)"
proof -
  let ?c = "generateDigestChallenge randomBytes realm qop algorithm False"
  have "?c @ '', stale=true'' = (?c @ '', '') @ ''stale=true''" by simp
  then have "sublist ''stale=true'' (?c @ '', stale=true'')"
    by (metis sublist_append_leftI)
  then show ?thesis by (simp only: challenge_stale)
qed

lemma shouldBeStale_never: "\<not> shouldBeStale ''never''"
  by (simp add: shouldBeStale_def)

lemma shouldBeStale_parse: "parseInt s = Some n \<Longrightarrow> n \<le> 0 \<Longrightarrow> shouldBeStale s"
  using parseInt_never by (auto simp: shouldBeStale_def)

subsection \<open>Evaluation of the digest functions\<close>

text \<open>
  The rounds are evaluated by rewriting, one round at a time, every sum and rotation
  reduced modulo the word size as soon as it is a numeral.
\<close>

lemma word32_mod: "(word_of_nat (n mod 4294967296) :: 32 word) = word_of_nat n"
  by (simp add: word_of_nat_eq_iff take_bit_eq_mod)

lemma word64_mod: "(word_of_nat (n mod 18446744073709551616) :: 64 word) = word_of_nat n"
  by (simp add: word_of_nat_eq_iff take_bit_eq_mod)

lemma reduce32_numeral: "reduce32 (numeral k) = word_of_nat (numeral k mod 4294967296)"
  unfolding reduce32_def word32_mod by simp

lemma reduce64_numeral: "reduce64 (numeral k) = word_of_nat (numeral k mod 18446744073709551616)"
  unfolding reduce64_def word64_mod by simp

lemma reduce_small: "reduce32 0 = 0" "reduce32 1 = 1" "reduce64 0 = 0" "reduce64 1 = 1"
  by (simp_all add: reduce32_def reduce64_def)

lemma step256_eval:
  "step256 [a, b, c, d, e, f, g, h] k w =
     (let t1 = reduce32 (h + bsig1_256 e + Ch e f g + k + w);
          t2 = reduce32 (bsig0_256 a + Maj a b c)
      in [reduce32 (t1 + t2), a, b, c, reduce32 (d + t1), e, f, g])"
  by (simp add: step256_def reduce32_def)

lemma rounds256_eval:
  "rounds256 s w (k # ks) =
     rounds256 (step256 s k (w ! 0))
       (tl w @ [reduce32 (ssig1_256 (w ! 14) + w ! 9 + ssig0_256 (w ! 1) + w ! 0)]) ks"
  by (simp add: reduce32_def)

lemma rotr32_eval: "rotr n (w :: 32 word) = reduce32 (drop_bit n w OR push_bit (32 - n) w)"
  by (simp add: reduce32_def rotr_def)

lemma compress256_eval:
  "compress256 hs block = map reduce32 (map2 (+) hs (rounds256 hs (map be_word (chunks 4 block)) K256))"
  by (simp add: compress256_def reduce32_def)

lemma step512_eval:
  "step512 [a, b, c, d, e, f, g, h] k w =
     (let t1 = reduce64 (h + bsig1_512 e + Ch e f g + k + w);
          t2 = reduce64 (bsig0_512 a + Maj a b c)
      in [reduce64 (t1 + t2), a, b, c, reduce64 (d + t1), e, f, g])"
  by (simp add: step512_def reduce64_def)

lemma rounds512_eval:
  "rounds512 s w (k # ks) =
     rounds512 (step512 s k (w ! 0))
       (tl w @ [reduce64 (ssig1_512 (w ! 14) + w ! 9 + ssig0_512 (w ! 1) + w ! 0)]) ks"
  by (simp add: reduce64_def)

lemma rotr64_eval: "rotr n (w :: 64 word) = reduce64 (drop_bit n w OR push_bit (64 - n) w)"
  by (simp add: reduce64_def rotr_def)

lemma compress512_eval:
  "compress512 hs block = map reduce64 (map2 (+) hs (rounds512 hs (map be_word (chunks 8 block)) K512))"
  by (simp add: compress512_def reduce64_def)

lemma replicate_numeral: "replicate (numeral k) x = x # replicate (pred_numeral k) x"
  by (simp add: numeral_eq_Suc)

declare rounds256.simps(2) [simp del] rounds512.simps(2) [simp del]

lemmas sha256_eval = sha256_def sha_pad_def be64_def be32_def compress256_eval K256_def H256_def
     be_word_def rotr32_eval Ch_def Maj_def bsig0_256_def bsig1_256_def ssig0_256_def ssig1_256_def
     step256_eval rounds256_eval reduce32_numeral reduce_small replicate_numeral Let_def
     hex_def hexdigit_def encode_def

lemmas sha512_eval = sha512_def sha_pad_def be128_def be64_def be32_def compress512_eval K512_def H512_def
     be_word_def rotr64_eval Ch_def Maj_def bsig0_512_def bsig1_512_def ssig0_512_def ssig1_512_def
     step512_eval rounds512_eval reduce64_numeral reduce_small replicate_numeral Let_def
     hex_def hexdigit_def encode_def

text \<open>The test vectors of FIPS 180-4 for the message \<open>abc\<close>.\<close>

lemma sha256_abc:
  "calculateDigest ''SHA-256'' ''abc'' =
     ''ba7816bf8f01cfea414140de5dae2223b00361a396177a9cb410ff61f20015ad''"
  by (simp add: calculateDigest_def sha256_eval)

lemma sha512_abc:
  "calculateDigest ''SHA-512'' ''abc'' =
     ''ddaf35a193617abacc417349ae20413112e6fa4e89a97ea20a9eeee64b55d39a2192992a274fc1a836ba3c23a3feebbd454d4423643ce80e2a9ac94fa54ca49f''"
  by (simp add: calculateDigest_def sha512_eval)

text \<open>The hashes of the examples below.\<close>

lemma md5_empty: "md5Hash [] = ''e3b0c44298fc1c149afbf4c8996fb924''"
  by (simp add: md5Hash_def sha256_eval)

lemma md5_a2_auth_int:
  "md5Hash ''GET:/digest-auth/auth-int/foo/bar'' = ''a5cba40984e45ec0d071365b29d9a5e1''"
  by (simp add: md5Hash_def sha256_eval)

lemma md5_a2_auth_int_body:
  "md5Hash ''GET:/digest-auth/auth-int/foo/bar:e3b0c44298fc1c149afbf4c8996fb924'' =
     ''ef844174629655a0f9bb73ff9bdb84f2''"
  by (simp add: md5Hash_def sha256_eval)

lemma md5_ha1_other_realm: "md5Hash ''foo:Other Realm:bar'' = ''e2836e8c29b58928a4ba959d0f93237e''"
  by (simp add: md5Hash_def sha256_eval)

lemma md5_a2_auth: "md5Hash ''GET:/digest-auth/auth/foo/bar'' = ''6e95f3d2183c4041f7c74f0d910eac7a''"
  by (simp add: md5Hash_def sha256_eval)

lemma md5_kd_other_realm:
  "md5Hash ''e2836e8c29b58928a4ba959d0f93237e:AQIDBAUGBwgJCgsM-vv8_w:00000001:0a4f113b:auth:6e95f3d2183c4041f7c74f0d910eac7a'' =
     ''546edbb7ff7768c00242e81565739764''"
  by (simp add: md5Hash_def sha256_eval)

subsection \<open>Verification\<close>

lemma digest_auth_md5_accepts:
  assumes "qop = ''auth'' \<or> qop = ''auth-int''"
    and "h \<noteq> []" and "parseDigestAuth h = Some authParams"
    and "checkDigestAuth authParams user passwd m u (Some qop) ''MD5''"
  shows "digest_auth_md5 randomBytes qop user passwd
           \<lparr>req_method = m, req_uri = u, authorization = Some h\<rparr> = authenticated user"
  using assms by (auto simp: digest_auth_md5_def truthy_def str_def)

lemma digest_auth_nostale_accepts:
  assumes "qop = ''auth'' \<or> qop = ''auth-int''"
    and "algorithm = ''MD5'' \<or> algorithm = ''SHA-256'' \<or> algorithm = ''SHA-512''"
    and "h \<noteq> []" and "parseDigestAuth h = Some authParams"
    and "checkDigestAuth authParams user passwd m u (Some qop) algorithm"
  shows "digest_auth_nostale randomBytes qop user passwd algorithm
           \<lparr>req_method = m, req_uri = u, authorization = Some h\<rparr> = authenticated user"
  using assms by (auto simp: digest_auth_nostale_def truthy_def str_def)

lemma digest_auth_accepts:
  assumes "qop = ''auth'' \<or> qop = ''auth-int''"
    and "algorithm = ''MD5'' \<or> algorithm = ''SHA-256'' \<or> algorithm = ''SHA-512''"
    and "h \<noteq> []" and "parseDigestAuth h = Some authParams"
    and "checkDigestAuth authParams user passwd m u (Some qop) algorithm"
  shows "digest_auth randomBytes qop user passwd algorithm staleAfter
           \<lparr>req_method = m, req_uri = u, authorization = Some h\<rparr> = authenticated user"
  using assms by (auto simp: digest_auth_def truthy_def str_def)

lemma be32_bytes: "\<forall>b\<in>set (be32 x). b < 256"
  by (simp add: be32_def)

lemma be64_bytes: "\<forall>b\<in>set (be64 x). b < 256"
  using be32_bytes by (auto simp: be64_def)

lemma sha256_bytes: "\<forall>b\<in>set (sha256 m). b < 256"
  using be32_bytes by (auto simp: sha256_def)

lemma sha512_bytes: "\<forall>b\<in>set (sha512 m). b < 256"
  using be64_bytes by (auto simp: sha512_def)

lemma hexdigit_not_dquote: "n < 16 \<Longrightarrow> hexdigit n \<noteq> dquote"
proof -
  assume "n < 16"
  then have "hexdigit n \<in> set ''0123456789abcdef''"
    unfolding hexdigit_def by (intro nth_mem) simp
  then show ?thesis by (auto simp: dquote_def)
qed

lemma hex_no_dquote: "\<forall>b\<in>set bs. b < 256 \<Longrightarrow> dquote \<notin> set (hex bs)"
proof (induction bs)
  case Nil
  then show ?case by (simp add: hex_def)
next
  case (Cons b bs)
  then have "b div 16 < 16" "b mod 16 < 16" by auto
  with Cons hexdigit_not_dquote [of "b div 16"] hexdigit_not_dquote [of "b mod 16"]
  show ?case by (auto simp: hex_def)
qed

lemma digest_no_dquote: "dquote \<notin> set (digest algorithm data)"
proof -
  have a: "dquote \<notin> set (hex (sha256 (encode data)))"
    by (rule hex_no_dquote) (rule sha256_bytes)
  have b: "dquote \<notin> set (hex (sha512 (encode data)))"
    by (rule hex_no_dquote) (rule sha512_bytes)
  from a have "dquote \<notin> set (take 32 (hex (sha256 (encode data))))"
    by (meson in_set_takeD)
  with a b show ?thesis
    by (simp add: digest_def md5Hash_def calculateDigest_def Let_def)
qed

lemma checkDigestAuth_legacy:
  assumes "\<not> truthy (authParams ''nc'') \<or> \<not> truthy (authParams ''cnonce'')"
  shows "checkDigestAuth authParams username password method uri qop algorithm =
      (truthy (authParams ''username'') \<and> truthy (authParams ''realm'') \<and>
       truthy (authParams ''nonce'') \<and> authParams ''username'' = Some username \<and>
       authParams ''response'' =
         Some (spec_response_legacy algorithm
                 (spec_HA1 algorithm username (str (authParams ''realm'')) password)
                 (str (authParams ''nonce''))
                 (spec_HA2 algorithm None method uri [])))"
  using assms
  by (auto simp: checkDigestAuth_def digest_response_def digest_HA1_def digest_HA2_def
      digest_A2_def spec_response_legacy_def spec_HA1_def spec_HA2_def Let_def)

lemma legacy_params_accepted:
  assumes "username \<noteq> []" and "realm \<noteq> []" and "nonce \<noteq> []"
  shows "checkDigestAuth (legacy_params algorithm username realm password method uri nonce)
           username password method uri qop algorithm"
  using assms
  by (subst checkDigestAuth_legacy) (simp_all add: legacy_params_def truthy_def str_def)

lemma legacy_header_parsed:
  assumes "dquote \<notin> set username" and "dquote \<notin> set realm" and "dquote \<notin> set nonce"
  shows "parseDigestAuth (legacy_header algorithm username realm password method uri nonce) =
           Some (legacy_params algorithm username realm password method uri nonce)"
proof -
  let ?r = "spec_response_legacy algorithm (spec_HA1 algorithm username realm password) nonce
              (spec_HA2 algorithm None method uri [])"
  let ?fs = "[Quoted ''username'' username, Quoted ''realm'' realm, Quoted ''nonce'' nonce,
              Quoted ''response'' ?r]"
  have r: "dquote \<notin> set ?r" by (simp add: spec_response_legacy_def digest_no_dquote)
  have h: "legacy_header algorithm username realm password method uri nonce =
           ''Digest '' @ fields_text ?fs"
    by (simp add: legacy_header_def)
  have wf: "list_all well_formed ?fs"
    using assms r by (simp add: is_key_def is_word_def)
  have "store_pairs Map.empty (field_pairs ?fs) =
        legacy_params algorithm username realm password method uri nonce"
    by (simp add: legacy_params_def set_property_def)
  with parseDigestAuth_fields [OF wf] h show ?thesis by simp
qed

section \<open>Properties\<close>

subsection \<open>Basic and Bearer\<close>

text \<open>
  C1. Claimed: for every pair of route parameters, the header \<open>Basic \<close> followed by the
  base64 encoding of \<open>user:passwd\<close> is answered 200, also when the password contains a
  colon, the credential being split at its first colon only. The handler splits at every
  colon and compares the second field with the password: for the user \<open>foo\<close> and the
  password \<open>a:b\<close> the right credential is answered 401.
\<close>

theorem basic_auth_colon_in_password:
  "basic_auth ''foo'' ''a:b'' (Some (''Basic '' @ btoa (''foo'' @ '':'' @ ''a:b''))) =
     Inr \<lparr>status = 401,
          headers = [(''WWW-Authenticate'', ''Basic realm='' @ [dquote] @ ''Fake Realm'' @ [dquote])],
          body = Null\<rparr>"
  by (simp add: basic_auth_def startsWith_def substring_def atob_def is_ascii_whitespace_def
      strip_padding_def b64index_def b64chars_def b64char_def btoa_def at_index_def
      basic_challenge_def c_body_def dquote_def)

theorem basic_auth_colon_in_password_witness:
  "btoa ''foo:a:b'' = ''Zm9vOmE6Yg=='' \<and>
   basic_auth ''foo'' ''a:b'' (Some ''Basic Zm9vOmE6Yg=='') = Inr basic_challenge"
  using basic_auth_colon_in_password
  by (simp add: btoa_def b64char_def b64chars_def basic_challenge_def c_body_def dquote_def)

text \<open>
  C4. A GET to \<open>/bearer\<close> whose Authorization header is sent as \<open>Bearer \<close> (the prefix and
  an empty token) is answered 401 with \<open>WWW-Authenticate: Bearer\<close>: the handler has no test
  of its own for an empty token, but it reads the header without its trailing white space,
  as \<open>Bearer\<close>, which does not start with the prefix. For every header sent, the answer is
  this 401 or a 200, and a 200 never carries an empty token.
\<close>

theorem bearer_empty_token_rejected:
  "bearer_route (Some ''Bearer '') =
     \<lparr>status = 401, headers = [(''WWW-Authenticate'', ''Bearer'')], body = Null\<rparr> \<and>
   (status (bearer_route sent) = 200 \<longrightarrow>
      (\<exists>token. token \<noteq> [] \<and>
         body (bearer_route sent) =
           Json [(''authenticated'', JBool True), (''token'', JString token)])) \<and>
   (status (bearer_route sent) \<noteq> 200 \<longrightarrow>
      bearer_route sent =
        \<lparr>status = 401, headers = [(''WWW-Authenticate'', ''Bearer'')], body = Null\<rparr>)"
proof (intro conjI impI)
  show "bearer_route (Some ''Bearer '') =
     \<lparr>status = 401, headers = [(''WWW-Authenticate'', ''Bearer'')], body = Null\<rparr>"
    by (simp add: bearer_route_def req_header_def normalize_value_def is_http_whitespace_def
        bearer_def startsWith_def c_body_def)
next
  assume "status (bearer_route sent) = 200"
  then obtain s where s: "sent = Some s" and p: "startsWith (normalize_value s) ''Bearer ''"
    by (auto simp: bearer_route_def req_header_def bearer_accepts)
  from p have "normalize_value s \<noteq> []" by (auto simp: startsWith_def)
  with s p have "body (bearer_route sent) =
      Json [(''authenticated'', JBool True),
            (''token'', JString (substring (normalize_value s) 7))]"
    by (simp add: bearer_route_def req_header_def bearer_def c_json_def)
  with bearer_token_not_empty [OF p] show "\<exists>token. token \<noteq> [] \<and>
         body (bearer_route sent) =
           Json [(''authenticated'', JBool True), (''token'', JString token)]" by blast
next
  assume "status (bearer_route sent) \<noteq> 200"
  then show "bearer_route sent =
        \<lparr>status = 401, headers = [(''WWW-Authenticate'', ''Bearer'')], body = Null\<rparr>"
    by (auto simp: bearer_route_def req_header_def bearer_def c_json_def c_body_def
        split: option.splits if_splits)
qed

theorem bearer_empty_token_rejected_witness:
  "status (bearer_route (Some ''Bearer '')) = 401 \<and>
   status (bearer_route (Some ''Bearer abc '')) = 200 \<and>
   (\<exists>token. token \<noteq> [] \<and>
      body (bearer_route (Some ''Bearer abc '')) =
        Json [(''authenticated'', JBool True), (''token'', JString token)])"
proof -
  have s: "status (bearer_route (Some ''Bearer abc '')) = 200"
    by (simp add: bearer_route_def req_header_def normalize_value_def is_http_whitespace_def
        bearer_def startsWith_def c_json_def)
  from bearer_empty_token_rejected [of "Some ''Bearer abc ''"] s show ?thesis by simp
qed

text \<open>
  C9. Claimed: a request to /basic-auth whose header starts with \<open>Basic \<close> always gets a
  200 or a 401, also when the rest is not base64. The handler calls \<^verbatim>\<open>atob\<close> outside
  any \<^verbatim>\<open>try\<close>: for \<open>Basic !\<close> the exception of \<^verbatim>\<open>atob\<close> leaves the handler, and
  no response of the handler exists.
\<close>

theorem basic_auth_malformed_base64:
  "basic_auth ''foo'' ''bar'' (Some ''Basic !'') = Inl InvalidCharacterError"
  by (simp add: basic_auth_def startsWith_def substring_def atob_def is_ascii_whitespace_def
      strip_padding_def b64index_def b64chars_def)

theorem basic_auth_malformed_base64_witness:
  "\<not> (\<exists>r. basic_auth ''foo'' ''bar'' (Some ''Basic !'') = Inr r)"
  using basic_auth_malformed_base64 by simp

subsection \<open>Validation of the route parameters\<close>

text \<open>
  C6. On the three Digest routes a \<open>qop\<close> other than \<open>auth\<close> and \<open>auth-int\<close> is answered
  400 with the text \<open>Invalid value for qop\<close>, and on the two routes that take an algorithm,
  an algorithm other than \<open>MD5\<close>, \<open>SHA-256\<close> and \<open>SHA-512\<close> is answered 400 with the text
  \<open>Invalid value for algorithm\<close> (when \<open>qop\<close> is valid; otherwise \<open>qop\<close> is the parameter
  named). The response is the same for every request and every nonce: neither the
  Authorization header nor any hash takes part in it.
\<close>

theorem route_validation_first:
  "(qop \<noteq> ''auth'' \<and> qop \<noteq> ''auth-int'' \<longrightarrow>
      digest_auth_md5 randomBytes qop user passwd req =
        \<lparr>status = 400, headers = [], body = Text ''Invalid value for qop''\<rparr> \<and>
      digest_auth_nostale randomBytes qop user passwd algorithm req =
        \<lparr>status = 400, headers = [], body = Text ''Invalid value for qop''\<rparr> \<and>
      digest_auth randomBytes qop user passwd algorithm staleAfter req =
        \<lparr>status = 400, headers = [], body = Text ''Invalid value for qop''\<rparr>) \<and>
   ((qop = ''auth'' \<or> qop = ''auth-int'') \<and>
    algorithm \<noteq> ''MD5'' \<and> algorithm \<noteq> ''SHA-256'' \<and> algorithm \<noteq> ''SHA-512'' \<longrightarrow>
      digest_auth_nostale randomBytes qop user passwd algorithm req =
        \<lparr>status = 400, headers = [], body = Text ''Invalid value for algorithm''\<rparr> \<and>
      digest_auth randomBytes qop user passwd algorithm staleAfter req =
        \<lparr>status = 400, headers = [], body = Text ''Invalid value for algorithm''\<rparr>)"
  by (simp add: digest_auth_md5_def digest_auth_nostale_def digest_auth_def c_body_def)

theorem route_validation_first_witness:
  "digest_auth_md5 [] ''bogus'' ''foo'' ''bar''
     \<lparr>req_method = ''GET'', req_uri = ''/digest-auth/bogus/foo/bar'',
      authorization = Some ''Digest username=foo''\<rparr> =
     \<lparr>status = 400, headers = [], body = Text ''Invalid value for qop''\<rparr> \<and>
   digest_auth [] ''auth'' ''foo'' ''bar'' ''ROT13'' ''never''
     \<lparr>req_method = ''GET'', req_uri = ''/digest-auth/auth/foo/bar/ROT13/never'',
      authorization = None\<rparr> =
     \<lparr>status = 400, headers = [], body = Text ''Invalid value for algorithm''\<rparr>"
  using
    route_validation_first [of "''bogus''" "[]" "''foo''" "''bar''"
      "\<lparr>req_method = ''GET'', req_uri = ''/digest-auth/bogus/foo/bar'',
        authorization = Some ''Digest username=foo''\<rparr>" "''MD5''" "''never''"]
    route_validation_first [of "''auth''" "[]" "''foo''" "''bar''"
      "\<lparr>req_method = ''GET'', req_uri = ''/digest-auth/auth/foo/bar/ROT13/never'',
        authorization = None\<rparr>" "''ROT13''" "''never''"]
  by simp

subsection \<open>The challenge\<close>

text \<open>
  C5. For a realm without a quote character, \<open>qop\<close> absent, \<open>auth\<close> or \<open>auth-int\<close>, and
  the algorithm absent, \<open>MD5\<close>, \<open>SHA-256\<close> or \<open>SHA-512\<close>: the challenge is the text
  \<open>Digest realm="..."\<close>, \<open>nonce="..."\<close>, then \<open>qop="..."\<close> when \<open>qop\<close> is given, then
  \<open>algorithm=...\<close> without quotes when the algorithm is given, then \<open>stale=true\<close> when the
  flag is set, and nothing for an absent field; and \<^verbatim>\<open>parseDigestAuth\<close> reads from it
  the realm, the \<open>qop\<close>, the algorithm and the flag that were passed in. This holds for
  every value of the random bytes of the nonce.
\<close>

theorem challenge_round_trip:
  assumes "dquote \<notin> set realm"
    and "qop = None \<or> qop = Some ''auth'' \<or> qop = Some ''auth-int''"
    and "algorithm = None \<or> algorithm = Some ''MD5'' \<or> algorithm = Some ''SHA-256'' \<or>
         algorithm = Some ''SHA-512''"
  shows "generateDigestChallenge randomBytes realm qop algorithm stale =
           ''Digest realm='' @ [dquote] @ realm @ [dquote] @
           '', nonce='' @ [dquote] @ generateNonce randomBytes @ [dquote] @
           (case qop of None \<Rightarrow> [] | Some q \<Rightarrow> '', qop='' @ [dquote] @ q @ [dquote]) @
           (case algorithm of None \<Rightarrow> [] | Some a \<Rightarrow> '', algorithm='' @ a) @
           (if stale then '', stale=true'' else []) \<and>
         (\<exists>params.
            parseDigestAuth (generateDigestChallenge randomBytes realm qop algorithm stale) =
              Some params \<and>
            params ''realm'' = Some realm \<and> params ''qop'' = qop \<and>
            params ''algorithm'' = algorithm \<and>
            params ''stale'' = (if stale then Some ''true'' else None))"
proof -
  let ?fs = "challenge_fields realm (generateNonce randomBytes) qop algorithm stale"
  let ?m = "store_pairs Map.empty (field_pairs ?fs)"
  have shape: "generateDigestChallenge randomBytes realm qop algorithm stale =
           ''Digest realm='' @ [dquote] @ realm @ [dquote] @
           '', nonce='' @ [dquote] @ generateNonce randomBytes @ [dquote] @
           (case qop of None \<Rightarrow> [] | Some q \<Rightarrow> '', qop='' @ [dquote] @ q @ [dquote]) @
           (case algorithm of None \<Rightarrow> [] | Some a \<Rightarrow> '', algorithm='' @ a) @
           (if stale then '', stale=true'' else [])"
    using assms(2,3) by (auto simp: generateDigestChallenge_def truthy_def str_def Let_def)
  have wf: "list_all well_formed ?fs"
    using assms nonce_no_dquote [of randomBytes]
    by (auto simp: challenge_fields_def is_key_names truthy_def str_def dquote_def)
  have parse: "parseDigestAuth (generateDigestChallenge randomBytes realm qop algorithm stale) =
               Some ?m"
    unfolding challenge_as_fields by (rule parseDigestAuth_fields [OF wf])
  have "?m ''realm'' = Some realm \<and> ?m ''qop'' = qop \<and> ?m ''algorithm'' = algorithm \<and>
        ?m ''stale'' = (if stale then Some ''true'' else None)"
    using assms(2,3) by (auto simp: challenge_fields_def truthy_def str_def set_property_def)
  with parse shape show ?thesis by blast
qed

theorem challenge_round_trip_witness:
  "\<exists>params.
     parseDigestAuth (generateDigestChallenge [1, 2, 3, 4, 5, 6, 7, 8, 9, 10, 11, 12, 13, 14, 15, 16]
        ''Fake Realm'' (Some ''auth-int'') (Some ''SHA-256'') True) = Some params \<and>
     params ''realm'' = Some ''Fake Realm'' \<and> params ''qop'' = Some ''auth-int'' \<and>
     params ''algorithm'' = Some ''SHA-256'' \<and> params ''stale'' = Some ''true''"
  using challenge_round_trip [of "''Fake Realm''" "Some ''auth-int''" "Some ''SHA-256''"
    "[1, 2, 3, 4, 5, 6, 7, 8, 9, 10, 11, 12, 13, 14, 15, 16]" True]
  by (auto simp: dquote_def)

subsection \<open>The staleness policy\<close>

text \<open>
  C7. On the route with \<open>stale_after\<close>: when \<^verbatim>\<open>parseInt(staleAfter, 10)\<close> is a number at
  most zero (the text \<open>0\<close> among others), every 401 response carries one
  \<open>WWW-Authenticate\<close> header whose challenge contains \<open>stale=true\<close>; when \<open>stale_after\<close> is
  \<open>never\<close>, the challenge of a 401 response does not contain \<open>stale=true\<close>. Both hold for
  every request and every nonce.
\<close>

theorem stale_policy:
  "(\<forall>n. parseInt staleAfter = Some n \<and> n \<le> 0 \<and>
        status (digest_auth randomBytes qop user passwd algorithm staleAfter req) = 401 \<longrightarrow>
        (\<exists>challenge.
           headers (digest_auth randomBytes qop user passwd algorithm staleAfter req) =
             [(''WWW-Authenticate'', challenge)] \<and>
           sublist ''stale=true'' challenge)) \<and>
   (status (digest_auth randomBytes qop user passwd algorithm ''never'' req) = 401 \<longrightarrow>
      (\<exists>challenge.
         headers (digest_auth randomBytes qop user passwd algorithm ''never'' req) =
           [(''WWW-Authenticate'', challenge)] \<and>
         \<not> sublist ''stale=true'' challenge))"
proof (intro conjI allI impI)
  fix n
  assume a: "parseInt staleAfter = Some n \<and> n \<le> 0 \<and>
     status (digest_auth randomBytes qop user passwd algorithm staleAfter req) = 401"
  then have s: "shouldBeStale staleAfter" by (auto intro: shouldBeStale_parse)
  from a have st: "status (digest_auth randomBytes qop user passwd algorithm staleAfter req) = 401"
    by simp
  let ?c = "generateDigestChallenge randomBytes ''Fake Realm'' (Some qop) (Some algorithm) True"
  from st s have "headers (digest_auth randomBytes qop user passwd algorithm staleAfter req) =
      [(''WWW-Authenticate'', ?c)]"
    by (auto simp: digest_auth_def c_body_def digest_challenge_def authenticated_def c_json_def
        Let_def split: if_splits option.splits)
  with stale_suffix [of randomBytes "''Fake Realm''" "Some qop" "Some algorithm"]
  show "\<exists>challenge.
           headers (digest_auth randomBytes qop user passwd algorithm staleAfter req) =
             [(''WWW-Authenticate'', challenge)] \<and>
           sublist ''stale=true'' challenge" by blast
next
  assume st: "status (digest_auth randomBytes qop user passwd algorithm ''never'' req) = 401"
  let ?c = "generateDigestChallenge randomBytes ''Fake Realm'' (Some qop) (Some algorithm) False"
  from st have q: "qop = ''auth'' \<or> qop = ''auth-int''"
    and al: "algorithm = ''MD5'' \<or> algorithm = ''SHA-256'' \<or> algorithm = ''SHA-512''"
    by (auto simp: digest_auth_def c_body_def split: if_splits)
  from st have "headers (digest_auth randomBytes qop user passwd algorithm ''never'' req) =
      [(''WWW-Authenticate'', ?c)]"
    using shouldBeStale_never
    by (auto simp: digest_auth_def c_body_def digest_challenge_def authenticated_def c_json_def
        Let_def split: if_splits option.splits)
  with no_stale_in_challenge [OF q al, of randomBytes]
  show "\<exists>challenge.
         headers (digest_auth randomBytes qop user passwd algorithm ''never'' req) =
           [(''WWW-Authenticate'', challenge)] \<and>
         \<not> sublist ''stale=true'' challenge" by blast
qed

theorem stale_policy_witness:
  "(\<exists>challenge.
      headers (digest_auth [] ''auth'' ''foo'' ''bar'' ''MD5'' ''0''
         \<lparr>req_method = ''GET'', req_uri = ''/digest-auth/auth/foo/bar/MD5/0'',
          authorization = None\<rparr>) = [(''WWW-Authenticate'', challenge)] \<and>
      sublist ''stale=true'' challenge) \<and>
   (\<exists>challenge.
      headers (digest_auth [] ''auth'' ''foo'' ''bar'' ''MD5'' ''never''
         \<lparr>req_method = ''GET'', req_uri = ''/digest-auth/auth/foo/bar/MD5/never'',
          authorization = None\<rparr>) = [(''WWW-Authenticate'', challenge)] \<and>
      \<not> sublist ''stale=true'' challenge)"
proof -
  have a: "parseInt ''0'' = Some 0 \<and> (0 :: int) \<le> 0 \<and>
      status (digest_auth [] ''auth'' ''foo'' ''bar'' ''MD5'' ''0''
         \<lparr>req_method = ''GET'', req_uri = ''/digest-auth/auth/foo/bar/MD5/0'',
          authorization = None\<rparr>) = 401"
    by (simp add: parseInt_zero digest_auth_def truthy_def digest_challenge_def c_body_def)
  have b: "status (digest_auth [] ''auth'' ''foo'' ''bar'' ''MD5'' ''never''
         \<lparr>req_method = ''GET'', req_uri = ''/digest-auth/auth/foo/bar/MD5/never'',
          authorization = None\<rparr>) = 401"
    by (simp add: digest_auth_def truthy_def digest_challenge_def c_body_def)
  from a b
    stale_policy [of "''0''" "[]" "''auth''" "''foo''" "''bar''" "''MD5''"
      "\<lparr>req_method = ''GET'', req_uri = ''/digest-auth/auth/foo/bar/MD5/0'',
        authorization = None\<rparr>"]
    stale_policy [of "''never''" "[]" "''auth''" "''foo''" "''bar''" "''MD5''"
      "\<lparr>req_method = ''GET'', req_uri = ''/digest-auth/auth/foo/bar/MD5/never'',
        authorization = None\<rparr>"]
  show ?thesis by blast
qed

subsection \<open>The parser\<close>




subsection \<open>The hash chain\<close>

text \<open>
  C2, as amended. Claimed: with \<open>qop = auth-int\<close> the HA2 of the verification is the hash of
  \<open>method:uri:hash(entityBody)\<close>. The verification never reads the entity body: for every
  \<open>qop\<close>, \<open>auth-int\<close> included, HA2 is the hash of \<open>method:uri\<close>, which is the HA2 of the
  specification when \<open>qop\<close> is absent or \<open>auth\<close>.
\<close>

theorem ha2_is_method_uri:
  "digest_HA2 algorithm qop method uri = digest algorithm (method @ '':'' @ uri) \<and>
   (qop \<noteq> Some ''auth-int'' \<longrightarrow>
      digest_HA2 algorithm qop method uri = spec_HA2 algorithm qop method uri entityBody)"
  by (simp add: digest_HA2_def digest_A2_def spec_HA2_def)

theorem ha2_is_method_uri_witness:
  "digest_HA2 ''SHA-256'' (Some ''auth'') ''GET'' ''/digest-auth/auth/foo/bar/SHA-256'' =
     spec_HA2 ''SHA-256'' (Some ''auth'') ''GET'' ''/digest-auth/auth/foo/bar/SHA-256'' ''body''"
proof -
  have "Some ''auth'' \<noteq> Some ''auth-int''" by simp
  with ha2_is_method_uri [of "''SHA-256''" "Some ''auth''" "''GET''"
      "''/digest-auth/auth/foo/bar/SHA-256''" "''body''"]
  show ?thesis by blast
qed

text \<open>
  For a GET of \<open>/digest-auth/auth-int/foo/bar\<close>, whose entity body is empty, the HA2 of the
  verification and the HA2 of the specification differ.
\<close>

theorem ha2_ignores_entity_body:
  "digest_HA2 ''MD5'' (Some ''auth-int'') ''GET'' ''/digest-auth/auth-int/foo/bar'' \<noteq>
   spec_HA2 ''MD5'' (Some ''auth-int'') ''GET'' ''/digest-auth/auth-int/foo/bar'' []"
  by (simp add: digest_HA2_def digest_A2_def spec_HA2_def digest_def md5_empty md5_a2_auth_int
      md5_a2_auth_int_body)

text \<open>
  C3, as amended. Claimed: the expected response is computed over the realm of the route,
  so that a client which computes HA1 over another realm is refused. The verification
  takes no realm of the route: HA1 is computed over the realm of the parsed header, and a
  client that computes its response over any realm that is not empty, and sends this
  realm, passes the verification.
\<close>

theorem client_realm_is_used:
  "digest_HA1 algorithm username authParams password =
     spec_HA1 algorithm username (str (authParams ''realm'')) password \<and>
   (username \<noteq> [] \<and> realm \<noteq> [] \<and> nonce \<noteq> [] \<and> nc \<noteq> [] \<and> cnonce \<noteq> [] \<and> qop \<noteq> [] \<longrightarrow>
      checkDigestAuth
        [''username'' \<mapsto> username, ''realm'' \<mapsto> realm, ''nonce'' \<mapsto> nonce, ''nc'' \<mapsto> nc,
         ''cnonce'' \<mapsto> cnonce,
         ''response'' \<mapsto>
           spec_response_qop algorithm (spec_HA1 algorithm username realm password) nonce nc
             cnonce qop (spec_HA2 algorithm None method uri [])]
        username password method uri (Some qop) algorithm)"
  by (simp add: checkDigestAuth_def digest_response_def digest_HA1_def digest_HA2_def
      digest_A2_def spec_response_qop_def spec_HA1_def spec_HA2_def truthy_def str_def)

theorem client_realm_is_used_witness:
  "checkDigestAuth
     [''username'' \<mapsto> ''foo'', ''realm'' \<mapsto> ''Other Realm'',
      ''nonce'' \<mapsto> ''AQIDBAUGBwgJCgsM-vv8_w'', ''nc'' \<mapsto> ''00000001'',
      ''cnonce'' \<mapsto> ''0a4f113b'',
      ''response'' \<mapsto>
        spec_response_qop ''SHA-256'' (spec_HA1 ''SHA-256'' ''foo'' ''Other Realm'' ''bar'')
          ''AQIDBAUGBwgJCgsM-vv8_w'' ''00000001'' ''0a4f113b'' ''auth-int''
          (spec_HA2 ''SHA-256'' None ''GET'' ''/digest-auth/auth-int/foo/bar/SHA-256'' [])]
     ''foo'' ''bar'' ''GET'' ''/digest-auth/auth-int/foo/bar/SHA-256'' (Some ''auth-int'')
     ''SHA-256''"
  using client_realm_is_used [of "''SHA-256''" "''foo''" Map.empty "''bar''" "''Other Realm''"
      "''AQIDBAUGBwgJCgsM-vv8_w''" "''00000001''" "''0a4f113b''" "''auth-int''" "''GET''"
      "''/digest-auth/auth-int/foo/bar/SHA-256''"]
  by simp

text \<open>
  On the route \<open>/digest-auth/auth/foo/bar\<close>, whose realm is \<open>Fake Realm\<close>, a client that
  computes its response over \<open>Other Realm\<close> is answered 200.
\<close>

theorem client_realm_authenticates:
  "digest_auth_md5 [] ''auth'' ''foo'' ''bar''
     \<lparr>req_method = ''GET'', req_uri = ''/digest-auth/auth/foo/bar'',
      authorization = Some
        ''Digest username=\"foo\", realm=\"Other Realm\", nonce=\"AQIDBAUGBwgJCgsM-vv8_w\", uri=\"/digest-auth/auth/foo/bar\", qop=auth, nc=00000001, cnonce=\"0a4f113b\", response=\"546edbb7ff7768c00242e81565739764\"''\<rparr> =
   \<lparr>status = 200, headers = [],
    body = Json [(''authenticated'', JBool True), (''user'', JString ''foo'')]\<rparr>"
proof -
  let ?fs = "[Quoted ''username'' ''foo'', Quoted ''realm'' ''Other Realm'',
              Quoted ''nonce'' ''AQIDBAUGBwgJCgsM-vv8_w'',
              Quoted ''uri'' ''/digest-auth/auth/foo/bar'', Bare ''qop'' ''auth'',
              Bare ''nc'' ''00000001'', Quoted ''cnonce'' ''0a4f113b'',
              Quoted ''response'' ''546edbb7ff7768c00242e81565739764'']"
  let ?h = "''Digest username=\"foo\", realm=\"Other Realm\", nonce=\"AQIDBAUGBwgJCgsM-vv8_w\", uri=\"/digest-auth/auth/foo/bar\", qop=auth, nc=00000001, cnonce=\"0a4f113b\", response=\"546edbb7ff7768c00242e81565739764\"''"
  have h: "?h = ''Digest '' @ fields_text ?fs" by (simp add: dquote_def)
  have wf: "list_all well_formed ?fs" by (simp add: is_key_def is_word_def dquote_def)
  have p: "parseDigestAuth ?h = Some (store_pairs Map.empty (field_pairs ?fs))"
    unfolding h by (rule parseDigestAuth_fields [OF wf])
  have c: "checkDigestAuth (store_pairs Map.empty (field_pairs ?fs)) ''foo'' ''bar'' ''GET''
             ''/digest-auth/auth/foo/bar'' (Some ''auth'') ''MD5''"
    by (simp add: checkDigestAuth_def set_property_def truthy_def str_def digest_HA1_def
        digest_HA2_def digest_A2_def digest_response_def digest_def
        md5_ha1_other_realm md5_a2_auth md5_kd_other_realm)
  have "digest_auth_md5 [] ''auth'' ''foo'' ''bar''
          \<lparr>req_method = ''GET'', req_uri = ''/digest-auth/auth/foo/bar'',
           authorization = Some ?h\<rparr> = authenticated ''foo''"
    by (rule digest_auth_md5_accepts [OF _ _ p c]) simp_all
  then show ?thesis by (simp only: authenticated_def c_json_def)
qed

text \<open>
  C10. When the parsed credentials hold no \<open>nc\<close> or no \<open>cnonce\<close> (an empty value counts as
  none), the verification compares the response with the legacy form, the hash of
  \<open>HA1:nonce:HA2\<close>, whatever the \<open>qop\<close> of the route. So for every nonce (not empty, as
  the verification requires a nonce), credentials of username, realm, nonce and the
  legacy response pass the verification; and on each of the three Digest routes the
  header that carries them in quotes (user, realm and nonce then hold no quote) is
  answered 200.
\<close>

theorem legacy_response_accepted:
  "(\<not> truthy (authParams ''nc'') \<or> \<not> truthy (authParams ''cnonce'') \<longrightarrow>
      checkDigestAuth authParams username password method uri qop algorithm =
        (truthy (authParams ''username'') \<and> truthy (authParams ''realm'') \<and>
         truthy (authParams ''nonce'') \<and> authParams ''username'' = Some username \<and>
         authParams ''response'' =
           Some (spec_response_legacy algorithm
                   (spec_HA1 algorithm username (str (authParams ''realm'')) password)
                   (str (authParams ''nonce''))
                   (spec_HA2 algorithm None method uri [])))) \<and>
   (user \<noteq> [] \<and> realm \<noteq> [] \<and> nonce \<noteq> [] \<longrightarrow>
      checkDigestAuth (legacy_params algorithm user realm passwd method uri nonce)
        user passwd method uri qop algorithm) \<and>
   (user \<noteq> [] \<and> realm \<noteq> [] \<and> nonce \<noteq> [] \<and>
    dquote \<notin> set user \<and> dquote \<notin> set realm \<and> dquote \<notin> set nonce \<and>
    (route_qop = ''auth'' \<or> route_qop = ''auth-int'') \<longrightarrow>
      digest_auth_md5 randomBytes route_qop user passwd
        \<lparr>req_method = method, req_uri = uri,
         authorization = Some (legacy_header ''MD5'' user realm passwd method uri nonce)\<rparr> =
        authenticated user \<and>
      (route_algorithm = ''MD5'' \<or> route_algorithm = ''SHA-256'' \<or> route_algorithm = ''SHA-512'' \<longrightarrow>
         digest_auth_nostale randomBytes route_qop user passwd route_algorithm
           \<lparr>req_method = method, req_uri = uri,
            authorization =
              Some (legacy_header route_algorithm user realm passwd method uri nonce)\<rparr> =
           authenticated user \<and>
         digest_auth randomBytes route_qop user passwd route_algorithm staleAfter
           \<lparr>req_method = method, req_uri = uri,
            authorization =
              Some (legacy_header route_algorithm user realm passwd method uri nonce)\<rparr> =
           authenticated user))"
proof (intro conjI impI)
  assume "\<not> truthy (authParams ''nc'') \<or> \<not> truthy (authParams ''cnonce'')"
  then show "checkDigestAuth authParams username password method uri qop algorithm =
        (truthy (authParams ''username'') \<and> truthy (authParams ''realm'') \<and>
         truthy (authParams ''nonce'') \<and> authParams ''username'' = Some username \<and>
         authParams ''response'' =
           Some (spec_response_legacy algorithm
                   (spec_HA1 algorithm username (str (authParams ''realm'')) password)
                   (str (authParams ''nonce''))
                   (spec_HA2 algorithm None method uri [])))"
    by (rule checkDigestAuth_legacy)
next
  assume "user \<noteq> [] \<and> realm \<noteq> [] \<and> nonce \<noteq> []"
  then show "checkDigestAuth (legacy_params algorithm user realm passwd method uri nonce)
        user passwd method uri qop algorithm"
    by (simp add: legacy_params_accepted)
next
  assume a: "user \<noteq> [] \<and> realm \<noteq> [] \<and> nonce \<noteq> [] \<and>
    dquote \<notin> set user \<and> dquote \<notin> set realm \<and> dquote \<notin> set nonce \<and>
    (route_qop = ''auth'' \<or> route_qop = ''auth-int'')"
  then have q: "route_qop = ''auth'' \<or> route_qop = ''auth-int''" by simp
  have ne: "legacy_header ''MD5'' user realm passwd method uri nonce \<noteq> []"
    by (simp add: legacy_header_def)
  from a have p: "parseDigestAuth (legacy_header ''MD5'' user realm passwd method uri nonce) =
      Some (legacy_params ''MD5'' user realm passwd method uri nonce)"
    by (simp add: legacy_header_parsed)
  from a have c: "checkDigestAuth (legacy_params ''MD5'' user realm passwd method uri nonce)
      user passwd method uri (Some route_qop) ''MD5''"
    by (simp add: legacy_params_accepted)
  show "digest_auth_md5 randomBytes route_qop user passwd
        \<lparr>req_method = method, req_uri = uri,
         authorization = Some (legacy_header ''MD5'' user realm passwd method uri nonce)\<rparr> =
        authenticated user"
    by (rule digest_auth_md5_accepts [OF q ne p c])
next
  assume a: "user \<noteq> [] \<and> realm \<noteq> [] \<and> nonce \<noteq> [] \<and>
    dquote \<notin> set user \<and> dquote \<notin> set realm \<and> dquote \<notin> set nonce \<and>
    (route_qop = ''auth'' \<or> route_qop = ''auth-int'')"
  assume al: "route_algorithm = ''MD5'' \<or> route_algorithm = ''SHA-256'' \<or> route_algorithm = ''SHA-512''"
  from a have q: "route_qop = ''auth'' \<or> route_qop = ''auth-int''" by simp
  have ne: "legacy_header route_algorithm user realm passwd method uri nonce \<noteq> []"
    by (simp add: legacy_header_def)
  from a have p: "parseDigestAuth (legacy_header route_algorithm user realm passwd method uri nonce) =
      Some (legacy_params route_algorithm user realm passwd method uri nonce)"
    by (simp add: legacy_header_parsed)
  from a have c: "checkDigestAuth (legacy_params route_algorithm user realm passwd method uri nonce)
      user passwd method uri (Some route_qop) route_algorithm"
    by (simp add: legacy_params_accepted)
  show "digest_auth_nostale randomBytes route_qop user passwd route_algorithm
           \<lparr>req_method = method, req_uri = uri,
            authorization =
              Some (legacy_header route_algorithm user realm passwd method uri nonce)\<rparr> =
           authenticated user"
    by (rule digest_auth_nostale_accepts [OF q al ne p c])
  show "digest_auth randomBytes route_qop user passwd route_algorithm staleAfter
           \<lparr>req_method = method, req_uri = uri,
            authorization =
              Some (legacy_header route_algorithm user realm passwd method uri nonce)\<rparr> =
           authenticated user"
    by (rule digest_auth_accepts [OF q al ne p c])
qed

theorem legacy_response_accepted_witness:
  "checkDigestAuth
     (legacy_params ''SHA-256'' ''foo'' ''Fake Realm'' ''bar'' ''GET''
        ''/digest-auth/auth/foo/bar/SHA-256/never'' ''any nonce'')
     ''foo'' ''bar'' ''GET'' ''/digest-auth/auth/foo/bar/SHA-256/never'' (Some ''auth'')
     ''SHA-256'' \<and>
   digest_auth [] ''auth'' ''foo'' ''bar'' ''SHA-256'' ''never''
     \<lparr>req_method = ''GET'', req_uri = ''/digest-auth/auth/foo/bar/SHA-256/never'',
      authorization =
        Some (legacy_header ''SHA-256'' ''foo'' ''Fake Realm'' ''bar'' ''GET''
                ''/digest-auth/auth/foo/bar/SHA-256/never'' ''any nonce'')\<rparr> =
     authenticated ''foo''"
  using legacy_response_accepted [of Map.empty "''foo''" "''bar''" "''GET''"
      "''/digest-auth/auth/foo/bar/SHA-256/never''" "Some ''auth''" "''SHA-256''" "''foo''"
      "''Fake Realm''" "''any nonce''" "''bar''" "''auth''" "[]" "''SHA-256''" "''never''"]
  by (simp add: dquote_def truthy_def)

end
